theory Spec2Isabelle
  imports Complex_Main "HOL-Library.Product_Lexorder" "HOL-Library.Multiset"
begin

section \<open>Stock ledger and balance cache of kustomproject\<close>

text \<open>
  A shallow embedding of \<^verbatim>\<open>server/services/movementService.js\<close> and
  \<^verbatim>\<open>server/services/inventoryService.js\<close> over the tables of
  \<^verbatim>\<open>server/mysql/2025_08_inventory.sql\<close>.

  A table is the list of its rows in insertion order; \<^verbatim>\<open>SELECT ... WHERE\<close> is
  \<open>filter\<close>, \<^verbatim>\<open>rows[0]\<close> is the first match, \<^verbatim>\<open>UPDATE ... WHERE\<close> maps over
  the matching rows, \<^verbatim>\<open>INSERT\<close> appends after the UNIQUE and FOREIGN KEY checks of the
  schema. A thrown \<^verbatim>\<open>Error\<close> is an \<open>Inl\<close> result that carries the database as the
  failing call left it; \<^verbatim>\<open>beginTransaction\<close>/\<^verbatim>\<open>rollback\<close> restore the database
  of the moment the transaction began.

  Numbers: identifiers and quantities are integers (\<open>0\<close> is the falsy one). Costs are
  JavaScript numbers: they are modelled as exact rationals extended with the non-finite
  values that a division by zero produces; the rounding of IEEE doubles and the scale of
  the \<^verbatim>\<open>DECIMAL(15,2)\<close> column are not modelled (a column holds the number written to it).
\<close>

subsection \<open>JavaScript numbers\<close>

datatype jsnum = Fin rat | PosInf | NegInf | NaN

text \<open>\<^verbatim>\<open>n * x\<close> for an integer \<open>n\<close>.\<close>

fun js_mul_int :: "int \<Rightarrow> jsnum \<Rightarrow> jsnum" where
  "js_mul_int n (Fin r) = Fin (of_int n * r)"
| "js_mul_int n PosInf = (if n = 0 then NaN else if 0 < n then PosInf else NegInf)"
| "js_mul_int n NegInf = (if n = 0 then NaN else if 0 < n then NegInf else PosInf)"
| "js_mul_int n NaN = NaN"

text \<open>\<^verbatim>\<open>x + y\<close>.\<close>

fun js_add :: "jsnum \<Rightarrow> jsnum \<Rightarrow> jsnum" where
  "js_add (Fin a) (Fin b) = Fin (a + b)"
| "js_add NaN y = NaN"
| "js_add x NaN = NaN"
| "js_add PosInf NegInf = NaN"
| "js_add NegInf PosInf = NaN"
| "js_add PosInf y = PosInf"
| "js_add NegInf y = NegInf"
| "js_add x PosInf = PosInf"
| "js_add x NegInf = NegInf"

text \<open>\<^verbatim>\<open>x / n\<close> for an integer \<open>n\<close> (never \<open>-0\<close>: it is a sum of integers).\<close>

fun js_div_int :: "jsnum \<Rightarrow> int \<Rightarrow> jsnum" where
  "js_div_int (Fin a) n =
     (if n = 0 then (if a = 0 then NaN else if 0 < a then PosInf else NegInf)
      else Fin (a / of_int n))"
| "js_div_int PosInf n = (if 0 \<le> n then PosInf else NegInf)"
| "js_div_int NegInf n = (if 0 \<le> n then NegInf else PosInf)"
| "js_div_int NaN n = NaN"

text \<open>\<^verbatim>\<open>parseFloat(x) || 0\<close> on a nullable numeric column: NULL, NaN and 0 read as 0.\<close>

fun parseFloat_or_0 :: "jsnum option \<Rightarrow> jsnum" where
  "parseFloat_or_0 None = Fin 0"
| "parseFloat_or_0 (Some NaN) = Fin 0"
| "parseFloat_or_0 (Some x) = x"

subsection \<open>Decimal rendering of integers in template strings\<close>

function show_nat :: "nat \<Rightarrow> string" where
  "show_nat n =
     (if n < 10 then [char_of (48 + n)]
      else show_nat (n div 10) @ [char_of (48 + n mod 10)])"
  by pat_completeness auto
termination
  by (relation "measure (\<lambda>n. n)") auto

definition show_int :: "int \<Rightarrow> string" where
  "show_int i = (if i < 0 then CHR ''-'' # show_nat (nat (- i)) else show_nat (nat i))"

subsection \<open>Tables\<close>

record location =
  l_id :: int
  l_code :: string
  l_name :: string
  l_is_default :: bool

record product =
  p_id :: int
  p_name :: string
  p_price :: int

record color =
  c_id :: int
  c_name :: string
  c_hex_code :: string

record size_row =
  s_id :: int
  s_name :: string
  s_sort :: int

record product_color =
  pc_id :: int
  pc_product_id :: int
  pc_color_id :: int

record product_color_size =
  pcs_id :: int
  pcs_product_color_id :: int
  pcs_size_id :: int

record stock_movement =
  m_id :: int
  m_variant_id :: int
  m_location_id :: int
  m_movement_type :: string
  m_reason_code :: string
  m_qty :: int
  m_unit :: string
  m_unit_cost :: "rat option"
  m_currency :: string
  m_ref_table :: "string option"
  m_ref_id :: "int option"
  m_ref_code :: "string option"
  m_note :: "string option"
  m_pic :: "string option"
  m_created_by :: "string option"
  m_created_at :: nat

record stock_balance =
  b_variant_id :: int
  b_location_id :: int
  b_qty_on_hand :: int
  b_avg_cost :: "jsnum option"
  b_updated_at :: nat

datatype opname_status = DRAFT | ACTIVE | COMPLETED | CANCELLED

record stock_opname =
  o_id :: int
  o_opname_code :: string
  o_location_id :: "int option"
  o_status :: opname_status
  o_snapshot_at :: "nat option"
  o_completed_at :: "nat option"
  o_created_by :: string

record stock_opname_item =
  i_opname_id :: int
  i_variant_id :: int
  i_location_id :: int
  i_system_qty :: int
  i_counted_qty :: "int option"
  i_note :: "string option"
  i_counted_by :: "string option"
  i_counted_at :: "nat option"

text \<open>
  The generated column
  \<^verbatim>\<open>variance_qty INT GENERATED ALWAYS AS (counted_qty - system_qty) STORED\<close>:
  NULL while the item is uncounted.
\<close>

definition i_variance_qty :: "stock_opname_item \<Rightarrow> int option" where
  "i_variance_qty i = map_option (\<lambda>c. c - i_system_qty i) (i_counted_qty i)"

text \<open>
  The database: the tables, and the AUTO\_INCREMENT counter of each table whose
  \<^verbatim>\<open>insertId\<close> the code reads. A counter advances with each successful insert; the
  gaps that a failed or rolled-back insert leaves in MySQL's numbering are not modelled.
\<close>

record db =
  locations :: "location list"
  products :: "product list"
  colors :: "color list"
  sizes :: "size_row list"
  product_colors :: "product_color list"
  product_color_sizes :: "product_color_size list"
  stock_movements :: "stock_movement list"
  stock_balances :: "stock_balance list"
  stock_opname :: "stock_opname list"
  stock_opname_items :: "stock_opname_item list"
  next_product_id :: int
  next_color_id :: int
  next_size_id :: int
  next_product_color_id :: int
  next_variant_id :: int
  next_movement_id :: int
  next_opname_id :: int

text \<open>
  What a call reads from outside the database: the environment variable, the clock behind
  \<^verbatim>\<open>CURRENT_TIMESTAMP\<close> (read once per call), and the one property of the missing module
  \<^verbatim>\<open>server/db.js\<close> that the sources leave open: whether \<^verbatim>\<open>db.query\<close> resolves to the
  rows, or as \<^verbatim>\<open>db.execute\<close> does to the pair of rows and fields.
\<close>

record env =
  ALLOW_NEGATIVE :: "string option"
  now :: nat
  query_resolves_to_rows :: bool

subsection \<open>Errors\<close>

text \<open>One constructor for each \<^verbatim>\<open>throw\<close> of the two services and each constraint of the schema.\<close>

datatype error =
    MissingRequiredFields
  | QuantityMustBePositive
  | InvalidReasonCodeFor string string
  | IncludesIsNotAFunction
  | InsufficientStockAvailableRequired int int
  | SameSourceAndDestination
  | VariantNotFound
  | OpnameItemNotFound
  | OpnameNotFoundOrNotActive
  | OpnameNotFound
  | ER_NO_REFERENCED_ROW
  | ER_DUP_ENTRY
  | NotAString

text \<open>The names under which section 7 of the specification files these errors.\<close>

datatype error_kind =
    InvalidArgument | InvalidReasonCode | InsufficientStock | NotFound | InvalidState
  | IntegrityFault | Unclassified

fun kind_of :: "error \<Rightarrow> error_kind" where
  "kind_of MissingRequiredFields = InvalidArgument"
| "kind_of QuantityMustBePositive = InvalidArgument"
| "kind_of SameSourceAndDestination = InvalidArgument"
| "kind_of (InvalidReasonCodeFor rc mt) = InvalidReasonCode"
| "kind_of (InsufficientStockAvailableRequired a r) = InsufficientStock"
| "kind_of VariantNotFound = NotFound"
| "kind_of OpnameItemNotFound = NotFound"
| "kind_of OpnameNotFound = NotFound"
| "kind_of OpnameNotFoundOrNotActive = InvalidState"
| "kind_of IncludesIsNotAFunction = Unclassified"
| "kind_of ER_NO_REFERENCED_ROW = Unclassified"
| "kind_of ER_DUP_ENTRY = Unclassified"
| "kind_of NotAString = Unclassified"

subsection \<open>Movement ledger: \<^verbatim>\<open>MovementService.createMovement\<close>\<close>

text \<open>The payload after destructuring: absent optional fields already hold their defaults.\<close>

record payload =
  variantId :: int
  locationId :: int
  movementType :: string
  reasonCode :: string
  qty :: int
  unit :: string
  unitCost :: "rat option"
  currency :: string
  refTable :: "string option"
  refId :: "int option"
  refCode :: "string option"
  noteText :: "string option"
  pic :: "string option"
  createdBy :: "string option"

definition validReasons :: "(string \<times> string list) list" where
  "validReasons =
     [(''IN'', [''OVERPROD_IN'', ''RETURN_IN'', ''ADJUSTMENT_IN'', ''TRANSFER_IN'']),
      (''OUT'', [''SALES_OUT'', ''GIFT_OUT'', ''ADJUSTMENT_OUT'', ''TRANSFER_OUT''])]"

text \<open>
  \<^verbatim>\<open>validReasons\<close> is an object literal, so a movement type that names a property of
  \<^verbatim>\<open>Object.prototype\<close> finds a value without \<^verbatim>\<open>includes\<close>, and the call throws a
  TypeError instead of the service's own error.
\<close>

definition Object_prototype_keys :: "string list" where
  "Object_prototype_keys =
     [''constructor'', ''__defineGetter__'', ''__defineSetter__'', ''hasOwnProperty'',
      ''__lookupGetter__'', ''__lookupSetter__'', ''isPrototypeOf'', ''propertyIsEnumerable'',
      ''toString'', ''valueOf'', ''__proto__'', ''toLocaleString'']"

text \<open>\<^verbatim>\<open>if (!validReasons[movementType]?.includes(reasonCode)) throw ...\<close>\<close>

definition check_reason :: "string \<Rightarrow> string \<Rightarrow> error option" where
  "check_reason mt rc =
     (case map_of validReasons mt of
        Some rs \<Rightarrow> if rc \<in> set rs then None else Some (InvalidReasonCodeFor rc mt)
      | None \<Rightarrow>
          if mt \<in> set Object_prototype_keys then Some IncludesIsNotAFunction
          else Some (InvalidReasonCodeFor rc mt))"

text \<open>\<^verbatim>\<open>SELECT ... FROM stock_balances WHERE variant_id = ? AND location_id = ?\<close>\<close>

definition balanceRows :: "db \<Rightarrow> int \<Rightarrow> int \<Rightarrow> stock_balance list" where
  "balanceRows d v l =
     filter (\<lambda>b. b_variant_id b = v \<and> b_location_id b = l) (stock_balances d)"

text \<open>\<^verbatim>\<open>balanceRows[0]?.qty_on_hand || 0\<close>\<close>

definition qty_on_hand_or_0 :: "stock_balance list \<Rightarrow> int" where
  "qty_on_hand_or_0 rows = (case rows of [] \<Rightarrow> 0 | b # _ \<Rightarrow> b_qty_on_hand b)"

text \<open>The two FOREIGN KEY constraints shared by \<^verbatim>\<open>stock_movements\<close> and \<^verbatim>\<open>stock_balances\<close>.\<close>

definition variant_exists :: "db \<Rightarrow> int \<Rightarrow> bool" where
  "variant_exists d v = (v \<in> set (map pcs_id (product_color_sizes d)))"

definition location_exists :: "db \<Rightarrow> int \<Rightarrow> bool" where
  "location_exists d l = (l \<in> set (map l_id (locations d)))"

text \<open>The row that \<^verbatim>\<open>INSERT INTO stock_movements (...) VALUES (...)\<close> writes under identifier \<open>i\<close>.\<close>

definition movement_row :: "env \<Rightarrow> payload \<Rightarrow> int \<Rightarrow> stock_movement" where
  "movement_row e p i =
     \<lparr>m_id = i, m_variant_id = variantId p, m_location_id = locationId p,
      m_movement_type = movementType p, m_reason_code = reasonCode p, m_qty = qty p,
      m_unit = unit p, m_unit_cost = unitCost p, m_currency = currency p,
      m_ref_table = refTable p, m_ref_id = refId p, m_ref_code = refCode p,
      m_note = noteText p, m_pic = pic p, m_created_by = createdBy p,
      m_created_at = now e\<rparr>"

text \<open>The insert itself, returning \<^verbatim>\<open>insertId\<close>.\<close>

definition insert_stock_movement :: "env \<Rightarrow> payload \<Rightarrow> db \<Rightarrow> error + (int \<times> db)" where
  "insert_stock_movement e p d =
     (if \<not> variant_exists d (variantId p) \<or> \<not> location_exists d (locationId p)
      then Inl ER_NO_REFERENCED_ROW
      else Inr (next_movement_id d,
        d\<lparr>stock_movements := stock_movements d @ [movement_row e p (next_movement_id d)],
           next_movement_id := next_movement_id d + 1\<rparr>))"

text \<open>
  \<^verbatim>\<open>INSERT INTO stock_balances (variant_id, location_id, qty_on_hand, avg_cost)\<close> under
  \<^verbatim>\<open>UNIQUE KEY unique_variant_location\<close> and the two foreign keys.
\<close>

definition insert_stock_balance :: "stock_balance \<Rightarrow> db \<Rightarrow> error + db" where
  "insert_stock_balance b d =
     (if \<not> variant_exists d (b_variant_id b) \<or> \<not> location_exists d (b_location_id b)
      then Inl ER_NO_REFERENCED_ROW
      else if balanceRows d (b_variant_id b) (b_location_id b) \<noteq> [] then Inl ER_DUP_ENTRY
      else Inr (d\<lparr>stock_balances := stock_balances d @ [b]\<rparr>))"

text \<open>\<^verbatim>\<open>MovementService.updateStockBalance({variantId, locationId, movementType, qty, unitCost}, connection)\<close>\<close>

definition newQty_of :: "string \<Rightarrow> int \<Rightarrow> int \<Rightarrow> int" where
  "newQty_of mt currentQty q =
     (if mt = ''IN'' then currentQty + q
      else if mt = ''OUT'' then currentQty - q
      else currentQty)"

definition newAvgCost_of :: "string \<Rightarrow> int \<Rightarrow> jsnum \<Rightarrow> int \<Rightarrow> rat option \<Rightarrow> jsnum" where
  "newAvgCost_of mt currentQty currentAvgCost q uc =
     (if mt = ''IN'' then
        (case uc of
           None \<Rightarrow> currentAvgCost
         | Some c \<Rightarrow>
             if 0 < c then
               js_div_int
                 (js_add (js_mul_int currentQty currentAvgCost) (Fin (of_int q * c)))
                 (currentQty + q)
             else currentAvgCost)
      else currentAvgCost)"

definition updateStockBalance ::
  "env \<Rightarrow> int \<Rightarrow> int \<Rightarrow> string \<Rightarrow> int \<Rightarrow> rat option \<Rightarrow> db \<Rightarrow> error + db" where
  "updateStockBalance e v l mt q uc d =
     (let rows = balanceRows d v l;
          currentQty = (case rows of [] \<Rightarrow> 0 | b # _ \<Rightarrow> b_qty_on_hand b);
          currentAvgCost = (case rows of [] \<Rightarrow> Fin 0 | b # _ \<Rightarrow> parseFloat_or_0 (b_avg_cost b));
          newQty = newQty_of mt currentQty q;
          newAvgCost = newAvgCost_of mt currentQty currentAvgCost q uc
      in if rows \<noteq> [] then
           Inr (d\<lparr>stock_balances :=
                  map (\<lambda>b. if b_variant_id b = v \<and> b_location_id b = l
                            then b\<lparr>b_qty_on_hand := newQty, b_avg_cost := Some newAvgCost,
                                   b_updated_at := now e\<rparr>
                            else b)
                      (stock_balances d)\<rparr>)
         else
           insert_stock_balance
             \<lparr>b_variant_id = v, b_location_id = l, b_qty_on_hand = newQty,
              b_avg_cost = Some newAvgCost, b_updated_at = now e\<rparr> d)"

text \<open>
  \<^verbatim>\<open>MovementService.createMovement(payload, connTx)\<close>. The statements are the same with
  and without \<^verbatim>\<open>connTx\<close>; what differs is who undoes them after a failure, so the
  result carries the database at the point of failure and a transactional caller
  discards it.
\<close>

definition createMovement ::
  "env \<Rightarrow> payload \<Rightarrow> db \<Rightarrow> (error \<times> db) + (stock_movement option \<times> db)" where
  "createMovement e p d =
     (if variantId p = 0 \<or> locationId p = 0 \<or> movementType p = [] \<or> reasonCode p = []
         \<or> qty p = 0
      then Inl (MissingRequiredFields, d)
      else if qty p \<le> 0 then Inl (QuantityMustBePositive, d)
      else (case check_reason (movementType p) (reasonCode p) of
        Some err \<Rightarrow> Inl (err, d)
      | None \<Rightarrow>
          (let currentQty = qty_on_hand_or_0 (balanceRows d (variantId p) (locationId p)) in
           if movementType p = ''OUT'' \<and> ALLOW_NEGATIVE e \<noteq> Some ''true''
              \<and> currentQty < qty p
           then Inl (InsufficientStockAvailableRequired currentQty (qty p), d)
           else (case insert_stock_movement e p d of
             Inl err \<Rightarrow> Inl (err, d)
           | Inr (insertId, d1) \<Rightarrow>
               (case updateStockBalance e (variantId p) (locationId p) (movementType p)
                       (qty p) (unitCost p) d1 of
                  Inl err \<Rightarrow> Inl (err, d1)
                | Inr d2 \<Rightarrow>
                    Inr (find (\<lambda>m. m_id m = insertId) (stock_movements d2), d2))))))"

subsection \<open>Transfer orchestrator: \<^verbatim>\<open>MovementService.transfer\<close>\<close>

text \<open>\<^verbatim>\<open>a || b\<close> on a nullable string.\<close>

definition str_or :: "string option \<Rightarrow> string \<Rightarrow> string" where
  "str_or a b = (case a of None \<Rightarrow> b | Some s \<Rightarrow> if s = [] then b else s)"

record transfer_request =
  t_variantId :: int
  t_fromLocationId :: int
  t_toLocationId :: int
  t_qty :: int
  t_refCode :: "string option"
  t_pic :: "string option"
  t_createdBy :: "string option"
  t_note :: "string option"

definition transfer_out_payload :: "transfer_request \<Rightarrow> payload" where
  "transfer_out_payload t =
     \<lparr>variantId = t_variantId t, locationId = t_fromLocationId t, movementType = ''OUT'',
      reasonCode = ''TRANSFER_OUT'', qty = t_qty t, unit = ''pcs'', unitCost = None,
      currency = ''IDR'', refTable = None, refId = None, refCode = t_refCode t,
      noteText = Some (str_or (t_note t) (''Transfer to location '' @ show_int (t_toLocationId t))),
      pic = t_pic t, createdBy = t_createdBy t\<rparr>"

definition transfer_in_payload :: "transfer_request \<Rightarrow> payload" where
  "transfer_in_payload t =
     \<lparr>variantId = t_variantId t, locationId = t_toLocationId t, movementType = ''IN'',
      reasonCode = ''TRANSFER_IN'', qty = t_qty t, unit = ''pcs'', unitCost = None,
      currency = ''IDR'', refTable = None, refId = None, refCode = t_refCode t,
      noteText = Some (str_or (t_note t) (''Transfer from location '' @ show_int (t_fromLocationId t))),
      pic = t_pic t, createdBy = t_createdBy t\<rparr>"

definition transfer ::
  "env \<Rightarrow> transfer_request \<Rightarrow> db
     \<Rightarrow> (error \<times> db) + ((stock_movement option \<times> stock_movement option) \<times> db)" where
  "transfer e t d =
     (if t_fromLocationId t = t_toLocationId t then Inl (SameSourceAndDestination, d)
      else (case createMovement e (transfer_out_payload t) d of
        Inl (err, _) \<Rightarrow> Inl (err, d)
      | Inr (outMovement, d1) \<Rightarrow>
          (case createMovement e (transfer_in_payload t) d1 of
             Inl (err, _) \<Rightarrow> Inl (err, d)
           | Inr (inMovement, d2) \<Rightarrow> Inr ((outMovement, inMovement), d2))))"

subsection \<open>What the readers of the ledger and of the balance cache see\<close>

text \<open>
  \<^verbatim>\<open>qty_on_hand\<close> as \<open>createMovement\<close>, \<open>updateStockBalance\<close>, \<open>getStockCard\<close> and
  \<open>getStockBalance\<close> read it: the first row of the pair, 0 without a row.
\<close>

definition quantity_on_hand :: "db \<Rightarrow> int \<Rightarrow> int \<Rightarrow> int" where
  "quantity_on_hand d v l = qty_on_hand_or_0 (balanceRows d v l)"

text \<open>\<^verbatim>\<open>avg_cost\<close> as \<open>updateStockBalance\<close> and \<open>getStockCard\<close> read it.\<close>

definition average_cost :: "db \<Rightarrow> int \<Rightarrow> int \<Rightarrow> jsnum" where
  "average_cost d v l =
     (case balanceRows d v l of [] \<Rightarrow> Fin 0 | b # _ \<Rightarrow> parseFloat_or_0 (b_avg_cost b))"

text \<open>
  \<^verbatim>\<open>CASE WHEN movement_type = 'IN' THEN qty ELSE -qty END\<close> of the opening-balance query,
  and \<^verbatim>\<open>qtyChange\<close> of \<open>getStockCard\<close>.
\<close>

definition signed_qty :: "stock_movement \<Rightarrow> int" where
  "signed_qty m = (if m_movement_type m = ''IN'' then m_qty m else - m_qty m)"



subsection \<open>Stock-card reader: \<^verbatim>\<open>InventoryService.getStockCard\<close>\<close>



text \<open>A movement row with the names its six inner joins attach to it.\<close>

record joined_movement =
  j_movement :: stock_movement
  j_location_name :: string
  j_location_code :: string
  j_product_name :: string
  j_color_name :: string
  j_size_name :: string




record stock_card_line =
  scl_row :: joined_movement
  scl_qty_change :: int
  scl_running_balance :: int

text \<open>The \<^verbatim>\<open>movements.map\<close> that threads \<^verbatim>\<open>runningBalance\<close>.\<close>

fun with_running_balance :: "int \<Rightarrow> joined_movement list \<Rightarrow> stock_card_line list" where
  "with_running_balance runningBalance [] = []"
| "with_running_balance runningBalance (j # js) =
     (let qtyChange = (if m_movement_type (j_movement j) = ''IN'' then m_qty (j_movement j)
                       else - m_qty (j_movement j));
          runningBalance' = runningBalance + qtyChange
      in \<lparr>scl_row = j, scl_qty_change = qtyChange, scl_running_balance = runningBalance'\<rparr>
         # with_running_balance runningBalance' js)"






subsection \<open>Opname workflow: \<^verbatim>\<open>startOpname\<close>, \<^verbatim>\<open>updateOpnameCount\<close>, \<^verbatim>\<open>commitOpname\<close>\<close>

text \<open>
  \<^verbatim>\<open>INSERT INTO stock_opname (opname_code, location_id, status, snapshot_at, created_by)
  VALUES (?, ?, 'ACTIVE', CURRENT_TIMESTAMP, ?)\<close> under the UNIQUE code and the foreign key
  of a non-NULL location.
\<close>

definition insert_stock_opname ::
  "env \<Rightarrow> string \<Rightarrow> int option \<Rightarrow> string \<Rightarrow> db \<Rightarrow> error + (int \<times> db)" where
  "insert_stock_opname e opnameCode locId cb d =
     (if opnameCode \<in> set (map o_opname_code (stock_opname d)) then Inl ER_DUP_ENTRY
      else if (case locId of None \<Rightarrow> False | Some l \<Rightarrow> \<not> location_exists d l)
      then Inl ER_NO_REFERENCED_ROW
      else Inr (next_opname_id d,
        d\<lparr>stock_opname := stock_opname d @
             [\<lparr>o_id = next_opname_id d, o_opname_code = opnameCode, o_location_id = locId,
               o_status = ACTIVE, o_snapshot_at = Some (now e), o_completed_at = None,
               o_created_by = cb\<rparr>],
           next_opname_id := next_opname_id d + 1\<rparr>))"

text \<open>
  \<^verbatim>\<open>INSERT INTO stock_opname_items (opname_id, variant_id, location_id, system_qty)\<close> under
  \<^verbatim>\<open>UNIQUE KEY unique_opname_variant_location\<close> and its foreign keys.
\<close>

definition insert_opname_item :: "int \<Rightarrow> stock_balance \<Rightarrow> db \<Rightarrow> error + db" where
  "insert_opname_item opnameId b d =
     (if opnameId \<notin> set (map o_id (stock_opname d)) \<or> \<not> variant_exists d (b_variant_id b)
         \<or> \<not> location_exists d (b_location_id b)
      then Inl ER_NO_REFERENCED_ROW
      else if \<exists>i \<in> set (stock_opname_items d).
                i_opname_id i = opnameId \<and> i_variant_id i = b_variant_id b
                \<and> i_location_id i = b_location_id b
      then Inl ER_DUP_ENTRY
      else Inr (d\<lparr>stock_opname_items := stock_opname_items d @
                  [\<lparr>i_opname_id = opnameId, i_variant_id = b_variant_id b,
                    i_location_id = b_location_id b, i_system_qty = b_qty_on_hand b,
                    i_counted_qty = None, i_note = None, i_counted_by = None,
                    i_counted_at = None\<rparr>]\<rparr>))"

fun snapshot_items :: "int \<Rightarrow> stock_balance list \<Rightarrow> db \<Rightarrow> error + db" where
  "snapshot_items opnameId [] d = Inr d"
| "snapshot_items opnameId (b # bs) d =
     (case insert_opname_item opnameId b d of
        Inl err \<Rightarrow> Inl err
      | Inr d1 \<Rightarrow> snapshot_items opnameId bs d1)"

definition startOpname ::
  "env \<Rightarrow> string \<Rightarrow> int option \<Rightarrow> string \<Rightarrow> db \<Rightarrow> (error \<times> db) + (stock_opname option \<times> db)" where
  "startOpname e opnameCode locId cb d =
     (case insert_stock_opname e opnameCode locId cb d of
        Inl err \<Rightarrow> Inl (err, d)
      | Inr (opnameId, d1) \<Rightarrow>
          (let balances =
                 filter (\<lambda>b. 0 < b_qty_on_hand b
                            \<and> (case locId of None \<Rightarrow> True
                                | Some l \<Rightarrow> l = 0 \<or> b_location_id b = l))
                   (stock_balances d1)
           in case snapshot_items opnameId balances d1 of
                Inl err \<Rightarrow> Inl (err, d)
              | Inr d2 \<Rightarrow> Inr (find (\<lambda>r. o_id r = opnameId) (stock_opname d2), d2)))"

definition updateOpnameCount ::
  "env \<Rightarrow> int \<Rightarrow> int \<Rightarrow> int \<Rightarrow> int \<Rightarrow> string \<Rightarrow> string option \<Rightarrow> db
     \<Rightarrow> (error \<times> db) + (stock_opname_item option \<times> db)" where
  "updateOpnameCount e opnameId v l countedQty countedBy nt d =
     (let hit = (\<lambda>i. i_opname_id i = opnameId \<and> i_variant_id i = v \<and> i_location_id i = l)
      in if filter hit (stock_opname_items d) = [] then Inl (OpnameItemNotFound, d)
         else
           (let d1 = d\<lparr>stock_opname_items :=
                        map (\<lambda>i. if hit i
                                  then i\<lparr>i_counted_qty := Some countedQty,
                                         i_counted_by := Some countedBy,
                                         i_counted_at := Some (now e), i_note := nt\<rparr>
                                  else i)
                            (stock_opname_items d)\<rparr>
            in Inr (find hit (stock_opname_items d1), d1)))"

text \<open>
  \<^verbatim>\<open>item.variance_qty\<close> as the commit loop uses it: \<^verbatim>\<open>Math.abs(null)\<close> is 0 and
  \<^verbatim>\<open>null > 0\<close> is false, so a NULL variance behaves as 0 there.
\<close>

definition variance_num :: "stock_opname_item \<Rightarrow> int" where
  "variance_num i = (case i_variance_qty i of None \<Rightarrow> 0 | Some x \<Rightarrow> x)"

text \<open>
  \<^verbatim>\<open>SELECT * FROM stock_opname_items WHERE opname_id = ? AND counted_qty IS NOT NULL AND
  variance_qty != 0 ORDER BY variance_qty DESC\<close>
\<close>

definition items_with_variance :: "db \<Rightarrow> int \<Rightarrow> stock_opname_item list" where
  "items_with_variance d opnameId =
     sort_key (\<lambda>i. - variance_num i)
       (filter (\<lambda>i. i_opname_id i = opnameId \<and> i_counted_qty i \<noteq> None
                  \<and> i_variance_qty i \<noteq> Some 0)
          (stock_opname_items d))"

definition adjustment_payload :: "stock_opname \<Rightarrow> int \<Rightarrow> string option \<Rightarrow> stock_opname_item \<Rightarrow> payload" where
  "adjustment_payload opname opnameId cb item =
     \<lparr>variantId = i_variant_id item, locationId = i_location_id item,
      movementType = (if 0 < variance_num item then ''IN'' else ''OUT''),
      reasonCode = (if 0 < variance_num item then ''ADJUSTMENT_IN'' else ''ADJUSTMENT_OUT''),
      qty = \<bar>variance_num item\<bar>, unit = ''pcs'', unitCost = None, currency = ''IDR'',
      refTable = Some ''stock_opname'', refId = Some opnameId,
      refCode = Some (o_opname_code opname),
      noteText = Some (''Stock opname adjustment: ''
                        @ str_or (i_note item) ''Physical count variance''),
      pic = i_counted_by item, createdBy = cb\<rparr>"

record adjustment =
  adj_movement :: "stock_movement option"
  adj_variance_qty :: "int option"
  adj_system_qty :: int
  adj_counted_qty :: "int option"

text \<open>The \<^verbatim>\<open>for (const item of items)\<close> loop; the first failing movement ends it.\<close>

fun book_adjustments ::
  "env \<Rightarrow> stock_opname \<Rightarrow> int \<Rightarrow> string option \<Rightarrow> stock_opname_item list \<Rightarrow> db
     \<Rightarrow> (error \<times> db) + (adjustment list \<times> db)" where
  "book_adjustments e opname opnameId cb [] d = Inr ([], d)"
| "book_adjustments e opname opnameId cb (item # items) d =
     (case createMovement e (adjustment_payload opname opnameId cb item) d of
        Inl x \<Rightarrow> Inl x
      | Inr (m, d1) \<Rightarrow>
          (case book_adjustments e opname opnameId cb items d1 of
             Inl x \<Rightarrow> Inl x
           | Inr (adjs, d2) \<Rightarrow>
               Inr (\<lparr>adj_movement = m, adj_variance_qty = i_variance_qty item,
                     adj_system_qty = i_system_qty item,
                     adj_counted_qty = i_counted_qty item\<rparr> # adjs, d2)))"

record commit_summary =
  total_items :: nat
  positive_variances :: nat
  negative_variances :: nat
  total_adjustments :: nat

record commit_result =
  cr_opname :: stock_opname
  cr_adjustments :: "adjustment list"
  cr_summary :: commit_summary

definition commitOpname ::
  "env \<Rightarrow> int \<Rightarrow> string option \<Rightarrow> db \<Rightarrow> (error \<times> db) + (commit_result \<times> db)" where
  "commitOpname e opnameId cb d =
     (case filter (\<lambda>r. o_id r = opnameId \<and> o_status r = ACTIVE) (stock_opname d) of
        [] \<Rightarrow> Inl (OpnameNotFoundOrNotActive, d)
      | opname # _ \<Rightarrow>
          (let items = items_with_variance d opnameId
           in case book_adjustments e opname opnameId cb items d of
                Inl (err, _) \<Rightarrow> Inl (err, d)
              | Inr (adjustments, d1) \<Rightarrow>
                  Inr (\<lparr>cr_opname = opname\<lparr>o_status := COMPLETED,
                                             o_completed_at := Some (now e)\<rparr>,
                        cr_adjustments = adjustments,
                        cr_summary =
                          \<lparr>total_items = length items,
                           positive_variances = length (filter (\<lambda>i. 0 < variance_num i) items),
                           negative_variances = length (filter (\<lambda>i. variance_num i < 0) items),
                           total_adjustments = length adjustments\<rparr>\<rparr>,
                       d1\<lparr>stock_opname :=
                            map (\<lambda>r. if o_id r = opnameId
                                      then r\<lparr>o_status := COMPLETED,
                                             o_completed_at := Some (now e)\<rparr>
                                      else r)
                                (stock_opname d1)\<rparr>)))"

subsection \<open>Variant resolver by name: \<^verbatim>\<open>resolveVariantId\<close>, \<^verbatim>\<open>createVariantFromNames\<close>\<close>

text \<open>Names compare with \<open>=\<close>, as JavaScript's own lookups do.\<close>

definition variants_by_names :: "db \<Rightarrow> string \<Rightarrow> string \<Rightarrow> string \<Rightarrow> int list" where
  "variants_by_names d productName colorName sizeName =
     [pcs_id pcs. pcs \<leftarrow> product_color_sizes d,
        pc \<leftarrow> product_colors d, pcs_product_color_id pcs = pc_id pc,
        p \<leftarrow> products d, pc_product_id pc = p_id p,
        c \<leftarrow> colors d, pc_color_id pc = c_id c,
        s \<leftarrow> sizes d, pcs_size_id pcs = s_id s,
        p_name p = productName \<and> c_name c = colorName \<and> s_name s = sizeName]"

definition productMapping :: "(string \<times> string) list" where
  "productMapping =
     [(''T-SHIRT KATUN 26 / JULI / 2025'', ''T-shirt Katun PDK''),
      (''T-SHIRT KATUN'', ''T-shirt Katun PDK''),
      (''LONG SLEEVE'', ''Long Sleeve''),
      (''HENLEY'', ''Henley''),
      (''POLOSHIRT'', ''Poloshirt''),
      (''POLO LONG SLEEVE'', ''Poloshirt Long Sleeve''),
      (''KEMEJA PIQUE PANJANG'', ''Kemeja Pique PJG''),
      (''KEMEJA PIQUE PENDEK'', ''Kemeja Pique PDK''),
      (''KIDS T-SHIRT'', ''Kids T-shirt''),
      (''KIDS HENLEY'', ''Kids T-shirt''),
      (''POLOSHIRT KRAH VARIASI'', ''Poloshirt Krah Variasi''),
      (''JAKET VARSITY'', ''Jaket Varsity''),
      (''SWEATER'', ''Sweater''),
      (''KAOS RAGLAN + PRODUK GET 1'', ''Kaos Premium 24s''),
      (''KAOS RINGER'', ''Kaos Ringer''),
      (''KAOS KRAH'', ''Kaos Krah''),
      (''KAOS PREMIUM'', ''Kaos Premium 24s''),
      (''KEMEJA DRILL'', ''Kemeja Drill''),
      (''KAOS CARDED'', ''T-shirt Katun PDK''),
      (''KAOS BASEBALL'', ''Kaos Baseball'')]"

definition sortOrder :: "(string \<times> int) list" where
  "sortOrder =
     [(''XS'', 1), (''S'', 2), (''M'', 3), (''L'', 4), (''XL'', 5), (''XXL'', 6),
      (''3XL'', 7), (''4XL'', 8), (''5XL'', 9)]"

text \<open>
  \<^verbatim>\<open>productMapping[productName] || productName\<close>. For a name that is a property of
  \<^verbatim>\<open>Object.prototype\<close> the result is not a string (\<open>None\<close>); what the driver does with
  it as a bind parameter is outside the sources, and the model stops there.
\<close>

definition mappedProductName :: "string \<Rightarrow> string option" where
  "mappedProductName productName =
     (case map_of productMapping productName of
        Some n \<Rightarrow> Some n
      | None \<Rightarrow> if productName \<in> set Object_prototype_keys then None else Some productName)"

text \<open>\<^verbatim>\<open>sortOrder[sizeName] || 10\<close>, with the same proviso.\<close>

definition sort_of_size :: "string \<Rightarrow> int option" where
  "sort_of_size sizeName =
     (case map_of sortOrder sizeName of
        Some n \<Rightarrow> Some n
      | None \<Rightarrow> if sizeName \<in> set Object_prototype_keys then None else Some 10)"

text \<open>The four get-or-create steps: \<^verbatim>\<open>SELECT id ...\<close>, and \<^verbatim>\<open>INSERT\<close> when nothing is found.\<close>

definition get_or_create_product :: "string \<Rightarrow> db \<Rightarrow> int \<times> db" where
  "get_or_create_product n d =
     (case filter (\<lambda>p. p_name p = n) (products d) of
        p # _ \<Rightarrow> (p_id p, d)
      | [] \<Rightarrow> (next_product_id d,
          d\<lparr>products := products d @
               [\<lparr>p_id = next_product_id d, p_name = n, p_price = 50000\<rparr>],
             next_product_id := next_product_id d + 1\<rparr>))"

definition get_or_create_color :: "string \<Rightarrow> db \<Rightarrow> int \<times> db" where
  "get_or_create_color n d =
     (case filter (\<lambda>c. c_name c = n) (colors d) of
        c # _ \<Rightarrow> (c_id c, d)
      | [] \<Rightarrow> (next_color_id d,
          d\<lparr>colors := colors d @
               [\<lparr>c_id = next_color_id d, c_name = n, c_hex_code = ''#808080''\<rparr>],
             next_color_id := next_color_id d + 1\<rparr>))"

definition get_or_create_size :: "string \<Rightarrow> db \<Rightarrow> error + (int \<times> db)" where
  "get_or_create_size n d =
     (case filter (\<lambda>s. s_name s = n) (sizes d) of
        s # _ \<Rightarrow> Inr (s_id s, d)
      | [] \<Rightarrow>
          (case sort_of_size n of
             None \<Rightarrow> Inl NotAString
           | Some k \<Rightarrow> Inr (next_size_id d,
               d\<lparr>sizes := sizes d @ [\<lparr>s_id = next_size_id d, s_name = n, s_sort = k\<rparr>],
                 next_size_id := next_size_id d + 1\<rparr>)))"

definition get_or_create_product_color :: "int \<Rightarrow> int \<Rightarrow> db \<Rightarrow> int \<times> db" where
  "get_or_create_product_color productId colorId d =
     (case filter (\<lambda>pc. pc_product_id pc = productId \<and> pc_color_id pc = colorId)
             (product_colors d) of
        pc # _ \<Rightarrow> (pc_id pc, d)
      | [] \<Rightarrow> (next_product_color_id d,
          d\<lparr>product_colors := product_colors d @
               [\<lparr>pc_id = next_product_color_id d, pc_product_id = productId,
                 pc_color_id = colorId\<rparr>],
             next_product_color_id := next_product_color_id d + 1\<rparr>))"

text \<open>
  \<^verbatim>\<open>INSERT INTO product_color_sizes (product_color_id, size_id)\<close> under
  \<^verbatim>\<open>UNIQUE KEY unique_product_color_size\<close> and the foreign key to \<^verbatim>\<open>product_colors\<close>.
\<close>

definition insert_product_color_size :: "int \<Rightarrow> int \<Rightarrow> db \<Rightarrow> error + (int \<times> db)" where
  "insert_product_color_size productColorId sizeId d =
     (if productColorId \<notin> set (map pc_id (product_colors d)) then Inl ER_NO_REFERENCED_ROW
      else if \<exists>r \<in> set (product_color_sizes d).
                pcs_product_color_id r = productColorId \<and> pcs_size_id r = sizeId
      then Inl ER_DUP_ENTRY
      else Inr (next_variant_id d,
        d\<lparr>product_color_sizes := product_color_sizes d @
             [\<lparr>pcs_id = next_variant_id d, pcs_product_color_id = productColorId,
               pcs_size_id = sizeId\<rparr>],
           next_variant_id := next_variant_id d + 1\<rparr>))"

text \<open>
  \<^verbatim>\<open>for (const location of locations) INSERT INTO stock_balances (variant_id, location_id,
  qty_on_hand) VALUES (?, ?, 0)\<close>: the average cost stays NULL.
\<close>

fun init_balances :: "env \<Rightarrow> int \<Rightarrow> location list \<Rightarrow> db \<Rightarrow> error + db" where
  "init_balances e v [] d = Inr d"
| "init_balances e v (loc # locs) d =
     (case insert_stock_balance
             \<lparr>b_variant_id = v, b_location_id = l_id loc, b_qty_on_hand = 0,
              b_avg_cost = None, b_updated_at = now e\<rparr> d of
        Inl err \<Rightarrow> Inl err
      | Inr d1 \<Rightarrow> init_balances e v locs d1)"

record resolved = r_id :: int  r_created :: bool

definition createVariantFromNames ::
  "env \<Rightarrow> string \<Rightarrow> string \<Rightarrow> string \<Rightarrow> db \<Rightarrow> (error \<times> db) + (resolved \<times> db)" where
  "createVariantFromNames e productName colorName sizeName d =
     (case mappedProductName productName of
        None \<Rightarrow> Inl (NotAString, d)
      | Some mapped \<Rightarrow>
          (let (productId, d1) = get_or_create_product mapped d;
               (colorId, d2) = get_or_create_color colorName d1
           in case get_or_create_size sizeName d2 of
                Inl err \<Rightarrow> Inl (err, d)
              | Inr (sizeId, d3) \<Rightarrow>
                  (let (productColorId, d4) = get_or_create_product_color productId colorId d3
                   in case insert_product_color_size productColorId sizeId d4 of
                        Inl err \<Rightarrow> Inl (err, d)
                      | Inr (vid, d5) \<Rightarrow>
                          (case init_balances e vid (locations d5) d5 of
                             Inl err \<Rightarrow> Inl (err, d)
                           | Inr d6 \<Rightarrow> Inr (\<lparr>r_id = vid, r_created = True\<rparr>, d6)))))"

definition resolveVariantId ::
  "env \<Rightarrow> string \<Rightarrow> string \<Rightarrow> string \<Rightarrow> db \<Rightarrow> (error \<times> db) + (resolved \<times> db)" where
  "resolveVariantId e productName colorName sizeName d =
     (case variants_by_names d productName colorName sizeName of
        vid # _ \<Rightarrow> Inr (\<lparr>r_id = vid, r_created = False\<rparr>, d)
      | [] \<Rightarrow> createVariantFromNames e productName colorName sizeName d)"

text \<open>
  No row refers to an identifier that is still to be handed out: what the foreign keys
  and the AUTO\_INCREMENT counters of the catalog tables maintain between them.
\<close>

definition counters_unreferenced :: "db \<Rightarrow> bool" where
  "counters_unreferenced d =
     (next_product_id d \<notin> set (map pc_product_id (product_colors d))
      \<and> next_color_id d \<notin> set (map pc_color_id (product_colors d))
      \<and> next_size_id d \<notin> set (map pcs_size_id (product_color_sizes d))
      \<and> next_product_color_id d \<notin> set (map pcs_product_color_id (product_color_sizes d)))"

subsection \<open>CSV import of stock: the row loop of \<^verbatim>\<open>POST /import-csv\<close> in \<^verbatim>\<open>routes/stock.js\<close>\<close>

text \<open>
  A parsed record. The quantity field is absent, or \<^verbatim>\<open>parseInt\<close> makes a number of it or
  not; \<open>csv_cost\<close> is \<^verbatim>\<open>parseFloat(unit_cost) || 0\<close>.
\<close>

datatype csv_quantity = Absent | Unparsable | Parsed int

record csv_record =
  csv_product_name :: string
  csv_color_name :: string
  csv_size_name :: string
  csv_location_name :: string
  csv_quantity :: csv_quantity
  csv_cost :: rat

datatype row_error =
    MissingFieldsInRow | InvalidQuantity | UnknownLocation | Thrown error

record import_results =
  imported :: nat
  created :: nat
  updated :: nat
  errors :: "(nat \<times> row_error) list"

text \<open>\<^verbatim>\<open>toLowerCase\<close> on the ASCII letters.\<close>

definition lower_char :: "char \<Rightarrow> char" where
  "lower_char c =
     (let n = (of_char c :: nat) in if 65 \<le> n \<and> n \<le> 90 then char_of (n + 32) else c)"

definition toLowerCase :: "string \<Rightarrow> string" where
  "toLowerCase s = map lower_char s"

definition locationMapping :: "(string \<times> string) list" where
  "locationMapping = [(''display'', ''display area''), (''lemari'', ''storage cabinet'')]"

text \<open>
  \<^verbatim>\<open>locations.find(loc => loc.name.toLowerCase() === mappedLocationName)\<close>; a name that
  is a property of \<^verbatim>\<open>Object.prototype\<close> maps to a value that no string equals.
\<close>

definition find_location :: "db \<Rightarrow> string \<Rightarrow> location option" where
  "find_location d locationName =
     (let lowered = toLowerCase locationName
      in case map_of locationMapping lowered of
           Some n \<Rightarrow> find (\<lambda>loc. toLowerCase (l_name loc) = n) (locations d)
         | None \<Rightarrow>
             if lowered \<in> set Object_prototype_keys then None
             else find (\<lambda>loc. toLowerCase (l_name loc) = lowered) (locations d))"

text \<open>
  \<^verbatim>\<open>InventoryService.getStockBalance\<close>: \<^verbatim>\<open>result.length > 0 ? result[0].qty_on_hand : 0\<close>
  on what \<^verbatim>\<open>db.query\<close> resolves to; \<open>None\<close> is \<^verbatim>\<open>undefined\<close>.
\<close>

definition getStockBalance :: "env \<Rightarrow> db \<Rightarrow> int \<Rightarrow> int \<Rightarrow> int option" where
  "getStockBalance e d v l =
     (if query_resolves_to_rows e then
        (case balanceRows d v l of [] \<Rightarrow> Some 0 | b # _ \<Rightarrow> Some (b_qty_on_hand b))
      else None)"

definition csv_add_payload :: "csv_record \<Rightarrow> int \<Rightarrow> int \<Rightarrow> int \<Rightarrow> payload" where
  "csv_add_payload r v l q =
     \<lparr>variantId = v, locationId = l, movementType = ''IN'', reasonCode = ''ADJUSTMENT_IN'',
      qty = q, unit = ''pcs'', unitCost = Some (csv_cost r), currency = ''IDR'',
      refTable = None, refId = None, refCode = Some ''CSV_IMPORT'',
      noteText = Some (''CSV Import: '' @ csv_product_name r @ '' '' @ csv_color_name r
                        @ '' '' @ csv_size_name r),
      pic = Some ''CSV_IMPORT'', createdBy = None\<rparr>"

definition csv_set_payload :: "csv_record \<Rightarrow> int \<Rightarrow> int \<Rightarrow> int \<Rightarrow> int \<Rightarrow> payload" where
  "csv_set_payload r v l q difference =
     \<lparr>variantId = v, locationId = l,
      movementType = (if 0 < difference then ''IN'' else ''OUT''),
      reasonCode = (if 0 < difference then ''ADJUSTMENT_IN'' else ''ADJUSTMENT_OUT''),
      qty = \<bar>difference\<bar>, unit = ''pcs'', unitCost = Some (csv_cost r), currency = ''IDR'',
      refTable = None, refId = None, refCode = Some ''CSV_SET'',
      noteText = Some (''CSV Set Stock: '' @ csv_product_name r @ '' '' @ csv_color_name r
                        @ '' '' @ csv_size_name r @ '' -> '' @ show_int q),
      pic = Some ''CSV_IMPORT'', createdBy = None\<rparr>"

text \<open>The movement of one row, once variant and location are known.\<close>

definition csv_movement ::
  "env \<Rightarrow> string \<Rightarrow> csv_record \<Rightarrow> int \<Rightarrow> int \<Rightarrow> int \<Rightarrow> db \<Rightarrow> (error \<times> db) + db" where
  "csv_movement e mode r v l q d =
     (if mode = ''add'' then
        (if 0 < q then
           (case createMovement e (csv_add_payload r v l q) d of
              Inl x \<Rightarrow> Inl x
            | Inr (_, d1) \<Rightarrow> Inr d1)
         else Inr d)
      else if mode = ''set'' then
        (let difference = q - (case getStockBalance e d v l of None \<Rightarrow> 0 | Some b \<Rightarrow> b)
         in if difference \<noteq> 0 then
              (case createMovement e (csv_set_payload r v l q difference) d of
                 Inl x \<Rightarrow> Inl x
               | Inr (_, d1) \<Rightarrow> Inr d1)
            else Inr d)
      else Inr d)"

text \<open>
  One pass of the loop body for record number \<open>i\<close>, reported as row \<open>i + 2\<close>. The
  \<^verbatim>\<open>catch\<close> keeps what the throwing call had already written.
\<close>

definition import_row ::
  "env \<Rightarrow> string \<Rightarrow> nat \<Rightarrow> csv_record \<Rightarrow> db \<times> import_results \<Rightarrow> db \<times> import_results" where
  "import_row e mode i r st =
     (let (d, res) = st;
          fail = (\<lambda>d' x. (d', res\<lparr>errors := errors res @ [(i + 2, x)]\<rparr>))
      in if csv_product_name r = [] \<or> csv_color_name r = [] \<or> csv_size_name r = []
            \<or> csv_location_name r = [] \<or> csv_quantity r = Absent
         then fail d MissingFieldsInRow
         else
           (case csv_quantity r of
              Absent \<Rightarrow> fail d MissingFieldsInRow
            | Unparsable \<Rightarrow> fail d InvalidQuantity
            | Parsed q \<Rightarrow>
                if q < 0 then fail d InvalidQuantity
                else
                  (case resolveVariantId e (csv_product_name r) (csv_color_name r)
                          (csv_size_name r) d of
                     Inl (err, d') \<Rightarrow> fail d' (Thrown err)
                   | Inr (variantResult, d1) \<Rightarrow>
                       (let res1 = (if r_created variantResult
                                    then res\<lparr>created := created res + 1\<rparr> else res);
                            fail1 = (\<lambda>d' x. (d', res1\<lparr>errors := errors res1 @ [(i + 2, x)]\<rparr>))
                        in case find_location d1 (csv_location_name r) of
                             None \<Rightarrow> fail1 d1 UnknownLocation
                           | Some loc \<Rightarrow>
                               (case csv_movement e mode r (r_id variantResult) (l_id loc) q d1 of
                                  Inl (err, d') \<Rightarrow> fail1 d' (Thrown err)
                                | Inr d2 \<Rightarrow>
                                    (d2, res1\<lparr>imported := imported res1 + 1,
                                              updated := updated res1 + 1\<rparr>))))))"

fun import_rows ::
  "env \<Rightarrow> string \<Rightarrow> nat \<Rightarrow> csv_record list \<Rightarrow> db \<times> import_results \<Rightarrow> db \<times> import_results" where
  "import_rows e mode i [] st = st"
| "import_rows e mode i (r # rs) st = import_rows e mode (Suc i) rs (import_row e mode i r st)"

definition importCsv :: "env \<Rightarrow> string \<Rightarrow> csv_record list \<Rightarrow> db \<Rightarrow> db \<times> import_results" where
  "importCsv e mode records d =
     import_rows e mode 0 records (d, \<lparr>imported = 0, created = 0, updated = 0, errors = []\<rparr>)"

subsection \<open>What a commit books\<close>

text \<open>The ledger rows of a commit loop that runs to its end, the first under identifier \<open>i\<close>.\<close>

fun adjustment_rows ::
  "env \<Rightarrow> stock_opname \<Rightarrow> int \<Rightarrow> string option \<Rightarrow> int \<Rightarrow> stock_opname_item list
     \<Rightarrow> stock_movement list" where
  "adjustment_rows e opname opnameId cb i [] = []"
| "adjustment_rows e opname opnameId cb i (item # items) =
     movement_row e (adjustment_payload opname opnameId cb item) i
       # adjustment_rows e opname opnameId cb (i + 1) items"

text \<open>The rows that a call appended to the ledger.\<close>

definition booked :: "db \<Rightarrow> db \<Rightarrow> stock_movement list" where
  "booked d d' = drop (length (stock_movements d)) (stock_movements d')"

text \<open>The variances of a list of items that concern one pair.\<close>

definition variance_at :: "int \<Rightarrow> int \<Rightarrow> stock_opname_item list \<Rightarrow> int" where
  "variance_at v l items =
     sum_list (map variance_num
       (filter (\<lambda>i. i_variant_id i = v \<and> i_location_id i = l) items))"

subsection \<open>Runs of the ledger-affecting operations\<close>



datatype operation =
    CreateMovement env payload
  | Transfer env transfer_request
  | StartOpname env string "int option" string
  | UpdateOpnameCount env int int int int string "string option"
  | CommitOpname env int "string option"
  | ImportCsv env string "csv_record list"

text \<open>
  The database a successful operation leaves; \<open>None\<close> when it fails. A CSV import
  reports its failing rows and succeeds.
\<close>

fun perform :: "operation \<Rightarrow> db \<Rightarrow> db option" where
  "perform (CreateMovement e p) d =
     (case createMovement e p d of Inl _ \<Rightarrow> None | Inr (_, d') \<Rightarrow> Some d')"
| "perform (Transfer e t) d =
     (case transfer e t d of Inl _ \<Rightarrow> None | Inr (_, d') \<Rightarrow> Some d')"
| "perform (StartOpname e code locId cb) d =
     (case startOpname e code locId cb d of Inl _ \<Rightarrow> None | Inr (_, d') \<Rightarrow> Some d')"
| "perform (UpdateOpnameCount e opnameId v l countedQty countedBy nt) d =
     (case updateOpnameCount e opnameId v l countedQty countedBy nt d of
        Inl _ \<Rightarrow> None | Inr (_, d') \<Rightarrow> Some d')"
| "perform (CommitOpname e opnameId cb) d =
     (case commitOpname e opnameId cb d of Inl _ \<Rightarrow> None | Inr (_, d') \<Rightarrow> Some d')"
| "perform (ImportCsv e mode records) d = Some (fst (importCsv e mode records d))"

fun perform_all :: "operation list \<Rightarrow> db \<Rightarrow> db option" where
  "perform_all [] d = Some d"
| "perform_all (x # xs) d =
     (case perform x d of None \<Rightarrow> None | Some d' \<Rightarrow> perform_all xs d')"

subsection \<open>A small shop, for concrete runs\<close>

text \<open>
  One variant (T-shirt Katun PDK, Hitam, L) and three locations; the third location was
  added after the variant, so the pair (1, 3) has no balance row.
\<close>

definition shop :: db where
  "shop =
     \<lparr>locations =
        [\<lparr>l_id = 1, l_code = ''DISPLAY'', l_name = ''Display Area'', l_is_default = True\<rparr>,
         \<lparr>l_id = 2, l_code = ''LEMARI'', l_name = ''Storage Cabinet'', l_is_default = False\<rparr>,
         \<lparr>l_id = 3, l_code = ''GUDANG'', l_name = ''Gudang'', l_is_default = False\<rparr>],
      products = [\<lparr>p_id = 1, p_name = ''T-shirt Katun PDK'', p_price = 45000\<rparr>],
      colors = [\<lparr>c_id = 1, c_name = ''Hitam'', c_hex_code = ''#000000''\<rparr>],
      sizes = [\<lparr>s_id = 1, s_name = ''L'', s_sort = 4\<rparr>],
      product_colors = [\<lparr>pc_id = 1, pc_product_id = 1, pc_color_id = 1\<rparr>],
      product_color_sizes = [\<lparr>pcs_id = 1, pcs_product_color_id = 1, pcs_size_id = 1\<rparr>],
      stock_movements = [],
      stock_balances =
        [\<lparr>b_variant_id = 1, b_location_id = 1, b_qty_on_hand = 0, b_avg_cost = None,
          b_updated_at = 0\<rparr>,
         \<lparr>b_variant_id = 1, b_location_id = 2, b_qty_on_hand = 0, b_avg_cost = None,
          b_updated_at = 0\<rparr>],
      stock_opname = [], stock_opname_items = [],
      next_product_id = 2, next_color_id = 2, next_size_id = 2, next_product_color_id = 2,
      next_variant_id = 2, next_movement_id = 1, next_opname_id = 1\<rparr>"

definition strict_env :: env where
  "strict_env = \<lparr>ALLOW_NEGATIVE = Some ''false'', now = 100, query_resolves_to_rows = True\<rparr>"

definition lenient_env :: env where
  "lenient_env = \<lparr>ALLOW_NEGATIVE = Some ''true'', now = 100, query_resolves_to_rows = True\<rparr>"

definition later_env :: env where
  "later_env = \<lparr>ALLOW_NEGATIVE = Some ''false'', now = 200, query_resolves_to_rows = True\<rparr>"

text \<open>A request for \<open>q\<close> pieces of variant 1 at location \<open>l\<close>.\<close>

definition request :: "string \<Rightarrow> string \<Rightarrow> int \<Rightarrow> int \<Rightarrow> rat option \<Rightarrow> payload" where
  "request mt rc l q uc =
     \<lparr>variantId = 1, locationId = l, movementType = mt, reasonCode = rc, qty = q,
      unit = ''pcs'', unitCost = uc, currency = ''IDR'', refTable = None, refId = None,
      refCode = None, noteText = None, pic = None, createdBy = None\<rparr>"

text \<open>The database a call leaves behind, whether it succeeds or fails.\<close>

definition db_after :: "(error \<times> db) + ('a \<times> db) \<Rightarrow> db" where
  "db_after r = (case r of Inl (_, d) \<Rightarrow> d | Inr (_, d) \<Rightarrow> d)"

text \<open>The shop with 10 pieces received at location 1 for 5000 each.\<close>

definition stocked_shop :: db where
  "stocked_shop =
     db_after (createMovement strict_env (request ''IN'' ''OVERPROD_IN'' 1 10 (Some 5000)) shop)"

text \<open>A transfer of \<open>q\<close> pieces of variant 1 under the reference code TRANSFER-1.\<close>

definition move_request :: "int \<Rightarrow> int \<Rightarrow> int \<Rightarrow> transfer_request" where
  "move_request a b q =
     \<lparr>t_variantId = 1, t_fromLocationId = a, t_toLocationId = b, t_qty = q,
      t_refCode = Some ''TRANSFER-1'', t_pic = None, t_createdBy = None, t_note = None\<rparr>"

text \<open>
  A day at the shop: a receipt, a transfer, a count at both locations that finds one piece
  missing at the first and three too many at the second, and later a CSV import that
  restocks the known variant and introduces a new one.
\<close>

definition csv_line :: "string \<Rightarrow> string \<Rightarrow> string \<Rightarrow> string \<Rightarrow> int \<Rightarrow> rat \<Rightarrow> csv_record" where
  "csv_line p c s l q k =
     \<lparr>csv_product_name = p, csv_color_name = c, csv_size_name = s, csv_location_name = l,
      csv_quantity = Parsed q, csv_cost = k\<rparr>"

definition a_day :: "operation list" where
  "a_day =
     [CreateMovement strict_env (request ''IN'' ''OVERPROD_IN'' 1 10 (Some 5000)),
      Transfer strict_env (move_request 1 2 4),
      StartOpname strict_env ''OPN-1'' None ''ayu'',
      UpdateOpnameCount strict_env 1 1 1 5 ''ayu'' None,
      UpdateOpnameCount strict_env 1 1 2 7 ''ayu'' None,
      CommitOpname strict_env 1 (Some ''ayu''),
      ImportCsv later_env ''add''
        [csv_line ''T-shirt Katun PDK'' ''Hitam'' ''L'' ''Display'' 2 4000,
         csv_line ''HENLEY'' ''Putih'' ''M'' ''lemari'' 3 6000]]"

text \<open>The shop after the count of that day, before the commit.\<close>

definition counted_shop :: db where
  "counted_shop = the (perform_all (take 5 a_day) shop)"

text \<open>The shop at the end of that day: the session is COMPLETED.\<close>

definition closed_shop :: db where
  "closed_shop = the (perform_all a_day shop)"

text \<open>The counted shop with two pieces sold at location 1 between the count and the commit.\<close>

definition sold_during_count :: db where
  "sold_during_count =
     the (perform_all [CreateMovement strict_env (request ''OUT'' ''SALES_OUT'' 1 2 None)]
            counted_shop)"

text \<open>
  The session of the specification's example: three items with (system, counted) =
  (10, 7), (5, 5), (0, 3), on balances that equal the system quantities.
\<close>

definition example_session :: db where
  "example_session =
     shop\<lparr>stock_balances :=
             [\<lparr>b_variant_id = 1, b_location_id = 1, b_qty_on_hand = 10, b_avg_cost = None,
               b_updated_at = 0\<rparr>,
              \<lparr>b_variant_id = 1, b_location_id = 2, b_qty_on_hand = 5, b_avg_cost = None,
               b_updated_at = 0\<rparr>,
              \<lparr>b_variant_id = 1, b_location_id = 3, b_qty_on_hand = 0, b_avg_cost = None,
               b_updated_at = 0\<rparr>],
          stock_opname :=
             [\<lparr>o_id = 1, o_opname_code = ''OPN-EX'', o_location_id = None, o_status = ACTIVE,
               o_snapshot_at = Some 50, o_completed_at = None, o_created_by = ''ayu''\<rparr>],
          stock_opname_items :=
             [\<lparr>i_opname_id = 1, i_variant_id = 1, i_location_id = 1, i_system_qty = 10,
               i_counted_qty = Some 7, i_note = None, i_counted_by = Some ''ayu'',
               i_counted_at = Some 60\<rparr>,
              \<lparr>i_opname_id = 1, i_variant_id = 1, i_location_id = 2, i_system_qty = 5,
               i_counted_qty = Some 5, i_note = None, i_counted_by = Some ''ayu'',
               i_counted_at = Some 60\<rparr>,
              \<lparr>i_opname_id = 1, i_variant_id = 1, i_location_id = 3, i_system_qty = 0,
               i_counted_qty = Some 3, i_note = None, i_counted_by = Some ''ayu'',
               i_counted_at = Some 60\<rparr>],
          next_opname_id := 2\<rparr>"




section \<open>Properties\<close>

subsection \<open>The balance upsert and the movement insert\<close>



lemma filter_update_same:
  assumes "\<And>b. P (f b) = P b"
  shows "filter P (map (\<lambda>b. if P b then f b else b) xs) = map f (filter P xs)"
  using assms by (induction xs) auto

lemma filter_update_other:
  assumes "\<And>b. P b \<Longrightarrow> Q (f b) = Q b"
  shows "filter Q (map (\<lambda>b. if P b then f b else b) xs)
         = map (\<lambda>b. if P b then f b else b) (filter Q xs)"
  using assms by (induction xs) auto

lemma updateStockBalance_cases:
  assumes "updateStockBalance e v l mt q uc d = Inr d'"
  obtains
    (Insert) "balanceRows d v l = []"
      "d' = d\<lparr>stock_balances := stock_balances d @
              [\<lparr>b_variant_id = v, b_location_id = l, b_qty_on_hand = newQty_of mt 0 q,
                b_avg_cost = Some (newAvgCost_of mt 0 (Fin 0) q uc), b_updated_at = now e\<rparr>]\<rparr>"
  | (Update) b bs where "balanceRows d v l = b # bs"
      "d' = d\<lparr>stock_balances :=
              map (\<lambda>r. if b_variant_id r = v \<and> b_location_id r = l
                        then r\<lparr>b_qty_on_hand := newQty_of mt (b_qty_on_hand b) q,
                               b_avg_cost := Some (newAvgCost_of mt (b_qty_on_hand b)
                                                    (parseFloat_or_0 (b_avg_cost b)) q uc),
                               b_updated_at := now e\<rparr>
                        else r)
                  (stock_balances d)\<rparr>"
proof (cases "balanceRows d v l")
  case Nil
  with assms show ?thesis
    by (intro Insert) (auto simp: updateStockBalance_def insert_stock_balance_def Let_def split: if_splits)
next
  case (Cons b bs)
  with assms show ?thesis
    by (intro Update[of b bs]) (auto simp: updateStockBalance_def Let_def)
qed

lemma updateStockBalance_rows:
  assumes "updateStockBalance e v l mt q uc d = Inr d'"
  shows "balanceRows d' v l \<noteq> []"
    and "quantity_on_hand d' v l = newQty_of mt (quantity_on_hand d v l) q"
    and "average_cost d' v l =
           parseFloat_or_0 (Some (newAvgCost_of mt (quantity_on_hand d v l) (average_cost d v l) q uc))"
    and "(v', l') \<noteq> (v, l) \<Longrightarrow> balanceRows d' v' l' = balanceRows d v' l'"
proof -
  show "balanceRows d' v l \<noteq> []"
    using assms by (cases rule: updateStockBalance_cases) (auto simp: balanceRows_def filter_update_same)
  show "quantity_on_hand d' v l = newQty_of mt (quantity_on_hand d v l) q"
    using assms by (cases rule: updateStockBalance_cases)
      (auto simp: balanceRows_def filter_update_same quantity_on_hand_def qty_on_hand_or_0_def)
  show "average_cost d' v l =
           parseFloat_or_0 (Some (newAvgCost_of mt (quantity_on_hand d v l) (average_cost d v l) q uc))"
    using assms by (cases rule: updateStockBalance_cases)
      (auto simp: balanceRows_def filter_update_same quantity_on_hand_def qty_on_hand_or_0_def average_cost_def)
  show "balanceRows d' v' l' = balanceRows d v' l'" if "(v', l') \<noteq> (v, l)"
    using assms that by (cases rule: updateStockBalance_cases)
      (auto simp: balanceRows_def filter_update_other filter_id_conv intro!: map_idI)
qed


lemma insert_stock_movement_Inr_iff:
  "insert_stock_movement e p d = Inr (i, d1) \<longleftrightarrow>
     variant_exists d (variantId p) \<and> location_exists d (locationId p) \<and>
     i = next_movement_id d \<and>
     d1 = d\<lparr>stock_movements := stock_movements d @ [movement_row e p (next_movement_id d)],
            next_movement_id := next_movement_id d + 1\<rparr>"
  by (auto simp: insert_stock_movement_def)

lemma createMovement_InrE:
  assumes "createMovement e p d = Inr (r, d')"
  obtains d1 where
    "variantId p \<noteq> 0" "locationId p \<noteq> 0" "0 < qty p"
    "check_reason (movementType p) (reasonCode p) = None"
    "movementType p = ''OUT'' \<Longrightarrow> ALLOW_NEGATIVE e \<noteq> Some ''true''
       \<Longrightarrow> qty p \<le> quantity_on_hand d (variantId p) (locationId p)"
    "insert_stock_movement e p d = Inr (next_movement_id d, d1)"
    "updateStockBalance e (variantId p) (locationId p) (movementType p) (qty p) (unitCost p) d1
       = Inr d'"
    "r = find (\<lambda>m. m_id m = next_movement_id d) (stock_movements d')"
  using assms unfolding createMovement_def quantity_on_hand_def Let_def
  by (auto split: if_splits option.splits sum.splits prod.splits simp: insert_stock_movement_Inr_iff)




lemma updateStockBalance_other_tables:
  assumes "updateStockBalance e v l mt q uc d = Inr d'"
  shows "d' = d\<lparr>stock_balances := stock_balances d'\<rparr>"
  using assms by (cases rule: updateStockBalance_cases) simp_all

lemma createMovement_db:
  assumes "createMovement e p d = Inr (r, d')"
  shows "d' = d\<lparr>stock_movements := stock_movements d @ [movement_row e p (next_movement_id d)],
                 next_movement_id := next_movement_id d + 1,
                 stock_balances := stock_balances d'\<rparr>"
  using assms
proof (cases rule: createMovement_InrE)
  case (1 d1)
  from 1(6) have d1: "d1 = d\<lparr>stock_movements := stock_movements d @ [movement_row e p (next_movement_id d)],
            next_movement_id := next_movement_id d + 1\<rparr>"
    by (simp add: insert_stock_movement_Inr_iff)
  from updateStockBalance_other_tables[OF 1(7)] show ?thesis
    by (simp add: d1)
qed

lemma createMovement_movements:
  assumes "createMovement e p d = Inr (r, d')"
  shows "stock_movements d' = stock_movements d @ [movement_row e p (next_movement_id d)]"
proof -
  have "stock_movements d'
        = stock_movements
            (d\<lparr>stock_movements := stock_movements d @ [movement_row e p (next_movement_id d)],
               next_movement_id := next_movement_id d + 1,
               stock_balances := stock_balances d'\<rparr>)"
    by (rule arg_cong[OF createMovement_db[OF assms]])
  then show ?thesis by simp
qed

lemma createMovement_frame:
  assumes "createMovement e p d = Inr (r, d')"
  shows "locations d' = locations d" "products d' = products d" "colors d' = colors d"
    "sizes d' = sizes d" "product_colors d' = product_colors d"
    "product_color_sizes d' = product_color_sizes d" "stock_opname d' = stock_opname d"
    "stock_opname_items d' = stock_opname_items d"
    "next_movement_id d' = next_movement_id d + 1"
proof -
  let ?rhs = "d\<lparr>stock_movements := stock_movements d @ [movement_row e p (next_movement_id d)],
               next_movement_id := next_movement_id d + 1,
               stock_balances := stock_balances d'\<rparr>"
  have eq: "f d' = f ?rhs" for f :: "db \<Rightarrow> 'x"
    by (rule arg_cong[OF createMovement_db[OF assms]])
  show "locations d' = locations d" using eq[of locations] by simp
  show "products d' = products d" using eq[of products] by simp
  show "colors d' = colors d" using eq[of colors] by simp
  show "sizes d' = sizes d" using eq[of sizes] by simp
  show "product_colors d' = product_colors d" using eq[of product_colors] by simp
  show "product_color_sizes d' = product_color_sizes d" using eq[of product_color_sizes] by simp
  show "stock_opname d' = stock_opname d" using eq[of stock_opname] by simp
  show "stock_opname_items d' = stock_opname_items d" using eq[of stock_opname_items] by simp
  show "next_movement_id d' = next_movement_id d + 1" using eq[of next_movement_id] by simp
qed

lemma createMovement_quantity:
  assumes "createMovement e p d = Inr (r, d')"
  shows "quantity_on_hand d' v l =
           (if v = variantId p \<and> l = locationId p
            then newQty_of (movementType p) (quantity_on_hand d v l) (qty p)
            else quantity_on_hand d v l)"
  using assms
proof (cases rule: createMovement_InrE)
  case (1 d1)
  from 1(6) have rows: "\<And>v l. balanceRows d1 v l = balanceRows d v l"
    by (auto simp: insert_stock_movement_Inr_iff balanceRows_def)
  show ?thesis
    using updateStockBalance_rows(2)[OF 1(7)] updateStockBalance_rows(4)[OF 1(7), of v l]
    by (auto simp: quantity_on_hand_def rows)
qed




lemma not_isl_collapse: "\<not> isl x \<Longrightarrow> x = Inr (fst (projr x), snd (projr x))"
  by (cases x) auto

lemma db_after_Inr [simp]: "db_after (Inr (r, d)) = d"
  by (simp add: db_after_def)

lemma db_after_Inl [simp]: "db_after (Inl (x, d)) = d"
  by (simp add: db_after_def)

subsection \<open>Moving-average cost\<close>






subsection \<open>OUT movements that exceed the stock on hand\<close>





subsection \<open>OUT movements at a pair without a balance row\<close>




subsection \<open>Transfers\<close>

lemma transfer_InrE:
  assumes "transfer e t d = Inr ((outM, inM), d')"
  obtains d1 where "t_fromLocationId t \<noteq> t_toLocationId t"
    "createMovement e (transfer_out_payload t) d = Inr (outM, d1)"
    "createMovement e (transfer_in_payload t) d1 = Inr (inM, d')"
  using assms unfolding transfer_def
  by (auto split: if_splits sum.splits prod.splits)

lemma transfer_payload_fields:
  "variantId (transfer_out_payload t) = t_variantId t"
  "locationId (transfer_out_payload t) = t_fromLocationId t"
  "movementType (transfer_out_payload t) = ''OUT''"
  "reasonCode (transfer_out_payload t) = ''TRANSFER_OUT''"
  "qty (transfer_out_payload t) = t_qty t"
  "refCode (transfer_out_payload t) = t_refCode t"
  "variantId (transfer_in_payload t) = t_variantId t"
  "locationId (transfer_in_payload t) = t_toLocationId t"
  "movementType (transfer_in_payload t) = ''IN''"
  "reasonCode (transfer_in_payload t) = ''TRANSFER_IN''"
  "qty (transfer_in_payload t) = t_qty t"
  "refCode (transfer_in_payload t) = t_refCode t"
  by (simp_all add: transfer_out_payload_def transfer_in_payload_def)

lemma movement_row_fields:
  "m_id (movement_row e p i) = i"
  "m_variant_id (movement_row e p i) = variantId p"
  "m_location_id (movement_row e p i) = locationId p"
  "m_movement_type (movement_row e p i) = movementType p"
  "m_reason_code (movement_row e p i) = reasonCode p"
  "m_qty (movement_row e p i) = qty p"
  "m_ref_table (movement_row e p i) = refTable p"
  "m_ref_id (movement_row e p i) = refId p"
  "m_ref_code (movement_row e p i) = refCode p"
  "m_created_at (movement_row e p i) = now e"
  by (simp_all add: movement_row_def)

lemma transfer_effect:
  assumes "transfer e t d = Inr ((outM, inM), d')"
  shows "t_fromLocationId t \<noteq> t_toLocationId t"
    and "quantity_on_hand d' (t_variantId t) (t_fromLocationId t)
         = quantity_on_hand d (t_variantId t) (t_fromLocationId t) - t_qty t"
    and "quantity_on_hand d' (t_variantId t) (t_toLocationId t)
         = quantity_on_hand d (t_variantId t) (t_toLocationId t) + t_qty t"
    and "stock_movements d'
         = stock_movements d @
             [movement_row e (transfer_out_payload t) (next_movement_id d),
              movement_row e (transfer_in_payload t) (next_movement_id d + 1)]"
proof -
  from assms obtain d1 where 1: "t_fromLocationId t \<noteq> t_toLocationId t"
    "createMovement e (transfer_out_payload t) d = Inr (outM, d1)"
    "createMovement e (transfer_in_payload t) d1 = Inr (inM, d')"
    by (rule transfer_InrE)
  note q1 = createMovement_quantity[OF 1(2)] and q2 = createMovement_quantity[OF 1(3)]
  show "t_fromLocationId t \<noteq> t_toLocationId t" by fact
  show "quantity_on_hand d' (t_variantId t) (t_fromLocationId t)
         = quantity_on_hand d (t_variantId t) (t_fromLocationId t) - t_qty t"
    using 1(1) by (simp add: q1 q2 transfer_payload_fields newQty_of_def)
  show "quantity_on_hand d' (t_variantId t) (t_toLocationId t)
         = quantity_on_hand d (t_variantId t) (t_toLocationId t) + t_qty t"
    using 1(1) by (simp add: q1 q2 transfer_payload_fields newQty_of_def)
  show "stock_movements d'
         = stock_movements d @
             [movement_row e (transfer_out_payload t) (next_movement_id d),
              movement_row e (transfer_in_payload t) (next_movement_id d + 1)]"
    using createMovement_movements[OF 1(2)] createMovement_movements[OF 1(3)]
      createMovement_frame(9)[OF 1(2)]
    by simp
qed

text \<open>
  C4. A transfer whose source and destination are the same location is rejected with the
  same-location error (an invalid argument) and leaves the database as it was. After a
  successful transfer of \<open>q\<close> from \<open>A\<close> to \<open>B\<close> the two locations differ, the balance at
  \<open>A\<close> is the former one minus \<open>q\<close>, the balance at \<open>B\<close> the former one plus \<open>q\<close>, and the
  ledger has exactly two new rows: an OUT row with reason TRANSFER\_OUT at \<open>A\<close> followed
  by an IN row with reason TRANSFER\_IN at \<open>B\<close>, both for \<open>q\<close> pieces of the variant and
  both carrying the request's reference code.
\<close>

theorem transfer_moves_stock:
  "(t_fromLocationId t = t_toLocationId t \<longrightarrow>
      transfer e t d = Inl (SameSourceAndDestination, d)
      \<and> kind_of SameSourceAndDestination = InvalidArgument)
   \<and> (\<forall>outM inM d'. transfer e t d = Inr ((outM, inM), d') \<longrightarrow>
        t_fromLocationId t \<noteq> t_toLocationId t
        \<and> quantity_on_hand d' (t_variantId t) (t_fromLocationId t)
          = quantity_on_hand d (t_variantId t) (t_fromLocationId t) - t_qty t
        \<and> quantity_on_hand d' (t_variantId t) (t_toLocationId t)
          = quantity_on_hand d (t_variantId t) (t_toLocationId t) + t_qty t
        \<and> (\<exists>mo mi. stock_movements d' = stock_movements d @ [mo, mi]
              \<and> m_movement_type mo = ''OUT'' \<and> m_reason_code mo = ''TRANSFER_OUT''
              \<and> m_location_id mo = t_fromLocationId t
              \<and> m_movement_type mi = ''IN'' \<and> m_reason_code mi = ''TRANSFER_IN''
              \<and> m_location_id mi = t_toLocationId t
              \<and> m_variant_id mo = t_variantId t \<and> m_variant_id mi = t_variantId t
              \<and> m_qty mo = t_qty t \<and> m_qty mi = t_qty t
              \<and> m_ref_code mo = t_refCode t \<and> m_ref_code mi = t_refCode t))"
proof (intro conjI impI allI)
  assume "t_fromLocationId t = t_toLocationId t"
  then show "transfer e t d = Inl (SameSourceAndDestination, d)"
    by (simp add: transfer_def)
next
  fix outM inM d'
  assume ok: "transfer e t d = Inr ((outM, inM), d')"
  show "t_fromLocationId t \<noteq> t_toLocationId t"
    and "quantity_on_hand d' (t_variantId t) (t_fromLocationId t)
          = quantity_on_hand d (t_variantId t) (t_fromLocationId t) - t_qty t"
    and "quantity_on_hand d' (t_variantId t) (t_toLocationId t)
          = quantity_on_hand d (t_variantId t) (t_toLocationId t) + t_qty t"
    by (rule transfer_effect[OF ok])+
  show "\<exists>mo mi. stock_movements d' = stock_movements d @ [mo, mi]
              \<and> m_movement_type mo = ''OUT'' \<and> m_reason_code mo = ''TRANSFER_OUT''
              \<and> m_location_id mo = t_fromLocationId t
              \<and> m_movement_type mi = ''IN'' \<and> m_reason_code mi = ''TRANSFER_IN''
              \<and> m_location_id mi = t_toLocationId t
              \<and> m_variant_id mo = t_variantId t \<and> m_variant_id mi = t_variantId t
              \<and> m_qty mo = t_qty t \<and> m_qty mi = t_qty t
              \<and> m_ref_code mo = t_refCode t \<and> m_ref_code mi = t_refCode t"
    using transfer_effect(4)[OF ok]
    by (intro exI[of _ "movement_row e (transfer_out_payload t) (next_movement_id d)"]
              exI[of _ "movement_row e (transfer_in_payload t) (next_movement_id d + 1)"])
       (simp add: movement_row_fields transfer_payload_fields)
qed simp

theorem transfer_moves_stock_witness:
  "transfer strict_env (move_request 1 1 4) stocked_shop
   = Inl (SameSourceAndDestination, stocked_shop)
   \<and> \<not> isl (transfer strict_env (move_request 1 2 4) stocked_shop)
   \<and> quantity_on_hand stocked_shop 1 1 = 10 \<and> quantity_on_hand stocked_shop 1 2 = 0
   \<and> quantity_on_hand (db_after (transfer strict_env (move_request 1 2 4) stocked_shop)) 1 1 = 6
   \<and> quantity_on_hand (db_after (transfer strict_env (move_request 1 2 4) stocked_shop)) 1 2 = 4
   \<and> length (stock_movements (db_after (transfer strict_env (move_request 1 2 4) stocked_shop)))
     = length (stock_movements stocked_shop) + 2"
proof -
  let ?same = "move_request 1 1 4"
  let ?t = "move_request 1 2 4"
  let ?r = "transfer strict_env ?t stocked_shop"
  have f: "t_fromLocationId ?same = t_toLocationId ?same" "t_variantId ?t = 1"
    "t_fromLocationId ?t = 1" "t_toLocationId ?t = 2" "t_qty ?t = 4"
    by (simp_all add: move_request_def)
  have Q: "quantity_on_hand stocked_shop 1 1 = 10" "quantity_on_hand stocked_shop 1 2 = 0"
    by code_simp+
  have ok: "\<not> isl ?r" by code_simp
  then have r: "?r = Inr ((fst (fst (projr ?r)), snd (fst (projr ?r))), snd (projr ?r))"
    by (cases ?r) auto
  then have after: "db_after ?r = snd (projr ?r)"
    by (metis db_after_Inr)
  have "transfer strict_env ?same stocked_shop = Inl (SameSourceAndDestination, stocked_shop)"
    using transfer_moves_stock[of ?same strict_env stocked_shop] f(1) by simp
  moreover have "quantity_on_hand (snd (projr ?r)) 1 1 = 6
     \<and> quantity_on_hand (snd (projr ?r)) 1 2 = 4
     \<and> length (stock_movements (snd (projr ?r))) = length (stock_movements stocked_shop) + 2"
    using transfer_moves_stock[of ?t strict_env stocked_shop, THEN conjunct2, rule_format, OF r] Q
    by (auto simp: f)
  ultimately show ?thesis using ok Q after by simp
qed

subsection \<open>Consistency of the balance cache with the ledger\<close>







lemma commitOpname_InrE:
  assumes "commitOpname e opnameId cb d = Inr (res, d')"
  obtains opname rest d1 where
    "filter (\<lambda>r. o_id r = opnameId \<and> o_status r = ACTIVE) (stock_opname d) = opname # rest"
    "book_adjustments e opname opnameId cb (items_with_variance d opnameId) d
       = Inr (cr_adjustments res, d1)"
    "d' = d1\<lparr>stock_opname :=
              map (\<lambda>r. if o_id r = opnameId
                        then r\<lparr>o_status := COMPLETED, o_completed_at := Some (now e)\<rparr>
                        else r)
                  (stock_opname d1)\<rparr>"
    "cr_opname res = opname\<lparr>o_status := COMPLETED, o_completed_at := Some (now e)\<rparr>"
  using assms unfolding commitOpname_def Let_def
  by (auto split: list.splits sum.splits prod.splits)








lemma createVariantFromNames_steps:
  assumes "createVariantFromNames e pn cn sn d = Inr (r, d')"
  obtains mapped pid d1 cid d2 sid d3 pcid d4 vid d5 where
    "mappedProductName pn = Some mapped"
    "get_or_create_product mapped d = (pid, d1)"
    "get_or_create_color cn d1 = (cid, d2)"
    "get_or_create_size sn d2 = Inr (sid, d3)"
    "get_or_create_product_color pid cid d3 = (pcid, d4)"
    "insert_product_color_size pcid sid d4 = Inr (vid, d5)"
    "init_balances e vid (locations d5) d5 = Inr d'"
    "r = \<lparr>r_id = vid, r_created = True\<rparr>"
  using assms unfolding createVariantFromNames_def Let_def
  by (auto split: option.splits prod.splits sum.splits)













subsection \<open>The commit loop\<close>

lemma adjustment_payload_fields:
  "variantId (adjustment_payload opname opnameId cb item) = i_variant_id item"
  "locationId (adjustment_payload opname opnameId cb item) = i_location_id item"
  "movementType (adjustment_payload opname opnameId cb item)
   = (if 0 < variance_num item then ''IN'' else ''OUT'')"
  "reasonCode (adjustment_payload opname opnameId cb item)
   = (if 0 < variance_num item then ''ADJUSTMENT_IN'' else ''ADJUSTMENT_OUT'')"
  "qty (adjustment_payload opname opnameId cb item) = \<bar>variance_num item\<bar>"
  "refTable (adjustment_payload opname opnameId cb item) = Some ''stock_opname''"
  "refId (adjustment_payload opname opnameId cb item) = Some opnameId"
  "refCode (adjustment_payload opname opnameId cb item) = Some (o_opname_code opname)"
  by (simp_all add: adjustment_payload_def)

lemma adjustment_newQty:
  "newQty_of (movementType (adjustment_payload opname opnameId cb item)) Q
     (qty (adjustment_payload opname opnameId cb item)) = Q + variance_num item"
  by (simp add: adjustment_payload_fields newQty_of_def)

lemma variance_at_Cons:
  "variance_at v l (item # items)
   = (if i_variant_id item = v \<and> i_location_id item = l then variance_num item else 0)
     + variance_at v l items"
  by (simp add: variance_at_def)

lemma book_adjustments_effect:
  assumes "book_adjustments e opname opnameId cb items d = Inr (adjs, d')"
  shows "stock_movements d'
         = stock_movements d @ adjustment_rows e opname opnameId cb (next_movement_id d) items
       \<and> (\<forall>v l. quantity_on_hand d' v l = quantity_on_hand d v l + variance_at v l items)
       \<and> length adjs = length items
       \<and> stock_opname d' = stock_opname d
       \<and> stock_opname_items d' = stock_opname_items d"
  using assms
proof (induction items arbitrary: d adjs)
  case Nil
  then show ?case by (auto simp: variance_at_def)
next
  case (Cons item items)
  from Cons.prems obtain m d1 adjs1 where
    step: "createMovement e (adjustment_payload opname opnameId cb item) d = Inr (m, d1)"
    and rest: "book_adjustments e opname opnameId cb items d1 = Inr (adjs1, d')"
    and adjs: "length adjs = Suc (length adjs1)"
    by (auto split: sum.splits prod.splits)
  note IH = Cons.IH[OF rest]
  have q1: "quantity_on_hand d1 v l
            = quantity_on_hand d v l
              + (if i_variant_id item = v \<and> i_location_id item = l then variance_num item
                 else 0)" for v l
    using createMovement_quantity[OF step, of v l]
    by (auto simp: adjustment_newQty) (simp_all add: adjustment_payload_fields)
  show ?case
    using IH createMovement_movements[OF step] createMovement_frame(7,8,9)[OF step] adjs
    by (simp add: q1 variance_at_Cons)
qed

lemma length_adjustment_rows [simp]:
  "length (adjustment_rows e opname opnameId cb i items) = length items"
  by (induction items arbitrary: i) simp_all

lemma adjustment_rows_nth:
  "k < length items \<Longrightarrow>
     adjustment_rows e opname opnameId cb i items ! k
     = movement_row e (adjustment_payload opname opnameId cb (items ! k)) (i + int k)"
proof (induction items arbitrary: i k)
  case Nil
  then show ?case by simp
next
  case (Cons item items)
  then show ?case by (cases k) (simp_all add: add.assoc)
qed

lemma commitOpname_effect:
  assumes "commitOpname e opnameId cb d = Inr (res, d')"
  obtains opname where
    "opname \<in> set (stock_opname d)" "o_id opname = opnameId" "o_status opname = ACTIVE"
    "booked d d'
     = adjustment_rows e opname opnameId cb (next_movement_id d) (items_with_variance d opnameId)"
    "\<And>v l. quantity_on_hand d' v l
            = quantity_on_hand d v l + variance_at v l (items_with_variance d opnameId)"
    "length (cr_adjustments res) = length (items_with_variance d opnameId)"
    "stock_opname d'
     = map (\<lambda>r. if o_id r = opnameId
                 then r\<lparr>o_status := COMPLETED, o_completed_at := Some (now e)\<rparr> else r)
           (stock_opname d)"
    "stock_opname_items d' = stock_opname_items d"
  using assms
proof (cases rule: commitOpname_InrE)
  case (1 opname rest d1)
  note eff = book_adjustments_effect[OF 1(2)]
  have "opname \<in> set (filter (\<lambda>r. o_id r = opnameId \<and> o_status r = ACTIVE) (stock_opname d))"
    by (simp add: 1(1))
  then have o: "opname \<in> set (stock_opname d)" "o_id opname = opnameId" "o_status opname = ACTIVE"
    by simp_all
  have qs: "quantity_on_hand (d1\<lparr>stock_opname := x\<rparr>) v l = quantity_on_hand d1 v l" for v l x
    by (simp add: quantity_on_hand_def balanceRows_def)
  show ?thesis
    using eff by (intro that[OF o]) (simp_all add: 1(3) booked_def qs)
qed

subsection \<open>What a commit books, and where the balances end\<close>

lemma sum_list_sort_key:
  fixes f :: "'a \<Rightarrow> int"
  shows "sum_list (map f (sort_key k xs)) = sum_list (map f xs)"
proof -
  have "sum_mset (mset (map f (sort_key k xs))) = sum_mset (mset (map f xs))"
    by simp
  then show ?thesis
    by (simp only: sum_mset_sum_list)
qed

lemma filter_unique:
  assumes "distinct (map f xs)" "x \<in> set xs"
  shows "filter (\<lambda>y. f y = f x) xs = [x]"
  using assms
proof (induction xs)
  case Nil
  then show ?case by simp
next
  case (Cons a xs)
  show ?case
  proof (cases "a = x")
    case True
    with Cons.prems have "f x \<notin> f ` set xs" by simp
    then have "\<forall>y \<in> set xs. f y \<noteq> f x" by (metis imageI)
    then have "filter (\<lambda>y. f y = f x) xs = []"
      by (simp add: filter_empty_conv)
    with True show ?thesis by simp
  next
    case False
    with Cons.prems have "x \<in> set xs" "f a \<noteq> f x" by auto
    with Cons show ?thesis by simp
  qed
qed

lemma items_with_variance_set:
  "item \<in> set (items_with_variance d opnameId) \<longleftrightarrow>
     item \<in> set (stock_opname_items d) \<and> i_opname_id item = opnameId
     \<and> i_counted_qty item \<noteq> None \<and> i_variance_qty item \<noteq> Some 0"
  by (auto simp: items_with_variance_def)

lemma variance_nonzero:
  assumes "item \<in> set (items_with_variance d opnameId)"
  shows "variance_num item \<noteq> 0"
  using assms
  by (auto simp: items_with_variance_set variance_num_def i_variance_qty_def split: option.splits)

lemma variance_at_unique:
  assumes "distinct (map (\<lambda>i. (i_variant_id i, i_location_id i))
                      (filter (\<lambda>i. i_opname_id i = opnameId) (stock_opname_items d)))"
    and "item \<in> set (stock_opname_items d)" "i_opname_id item = opnameId"
  shows "variance_at (i_variant_id item) (i_location_id item) (items_with_variance d opnameId)
         = (if i_counted_qty item \<noteq> None \<and> i_variance_qty item \<noteq> Some 0
            then variance_num item else 0)"
proof -
  let ?pair = "\<lambda>i. (i_variant_id i, i_location_id i)"
  let ?session = "filter (\<lambda>i. i_opname_id i = opnameId) (stock_opname_items d)"
  let ?P = "\<lambda>i. i_counted_qty i \<noteq> None \<and> i_variance_qty i \<noteq> Some 0"
  let ?A = "\<lambda>i. i_variant_id i = i_variant_id item \<and> i_location_id i = i_location_id item"
  let ?B = "\<lambda>i. i_opname_id i = opnameId \<and> i_counted_qty i \<noteq> None
                \<and> i_variance_qty i \<noteq> Some 0"
  have one: "filter (\<lambda>y. ?pair y = ?pair item) ?session = [item]"
    using assms by (intro filter_unique) simp_all
  have "filter ?A (filter ?B (stock_opname_items d))
        = filter ?P (filter (\<lambda>y. ?pair y = ?pair item) ?session)"
    unfolding filter_filter by (rule filter_cong) auto
  also have "\<dots> = (if ?P item then [item] else [])"
    unfolding one by simp
  finally have key: "filter ?A (filter ?B (stock_opname_items d))
                     = (if ?P item then [item] else [])" .
  have "variance_at (i_variant_id item) (i_location_id item) (items_with_variance d opnameId)
        = sum_list (map variance_num (filter ?A (filter ?B (stock_opname_items d))))"
    unfolding variance_at_def items_with_variance_def filter_sort sum_list_sort_key ..
  then show ?thesis
    unfolding key by simp
qed

lemma signed_qty_adjustment:
  "signed_qty (movement_row e (adjustment_payload opname opnameId cb item) i) = variance_num item"
  by (simp add: signed_qty_def movement_row_fields adjustment_payload_fields)

text \<open>
  C5, as the code has it. A successful commit books exactly the session's items that are
  counted and whose variance is not zero, one ledger row each (uncounted and zero-variance
  items get none): the row is for the item's pair and for the absolute variance,
  IN with ADJUSTMENT\_IN when the variance is positive and OUT with ADJUSTMENT\_OUT when it
  is negative, and it references the session. Every pair ends at its balance before the
  commit plus the variances booked for it. So, the pairs of a session being distinct, a
  counted item whose pair still held the snapshot quantity when the commit began ends at
  the counted quantity.
\<close>

theorem commit_books_variances:
  assumes "commitOpname e opnameId cb d = Inr (res, d')"
  shows "mset (items_with_variance d opnameId)
         = mset (filter (\<lambda>i. i_opname_id i = opnameId \<and> i_counted_qty i \<noteq> None
                             \<and> i_variance_qty i \<noteq> Some 0) (stock_opname_items d))
       \<and> length (booked d d') = length (items_with_variance d opnameId)
       \<and> (\<forall>k < length (items_with_variance d opnameId).
            m_variant_id (booked d d' ! k) = i_variant_id (items_with_variance d opnameId ! k)
            \<and> m_location_id (booked d d' ! k)
              = i_location_id (items_with_variance d opnameId ! k)
            \<and> m_qty (booked d d' ! k) = \<bar>variance_num (items_with_variance d opnameId ! k)\<bar>
            \<and> variance_num (items_with_variance d opnameId ! k) \<noteq> 0
            \<and> (0 < variance_num (items_with_variance d opnameId ! k) \<longrightarrow>
                 m_movement_type (booked d d' ! k) = ''IN''
                 \<and> m_reason_code (booked d d' ! k) = ''ADJUSTMENT_IN'')
            \<and> (variance_num (items_with_variance d opnameId ! k) < 0 \<longrightarrow>
                 m_movement_type (booked d d' ! k) = ''OUT''
                 \<and> m_reason_code (booked d d' ! k) = ''ADJUSTMENT_OUT'')
            \<and> m_ref_table (booked d d' ! k) = Some ''stock_opname''
            \<and> m_ref_id (booked d d' ! k) = Some opnameId)
       \<and> (\<forall>v l. quantity_on_hand d' v l
                 = quantity_on_hand d v l + variance_at v l (items_with_variance d opnameId))
       \<and> (distinct (map (\<lambda>i. (i_variant_id i, i_location_id i))
                      (filter (\<lambda>i. i_opname_id i = opnameId) (stock_opname_items d))) \<longrightarrow>
            (\<forall>item \<in> set (stock_opname_items d). \<forall>c.
               i_opname_id item = opnameId \<and> i_counted_qty item = Some c
               \<and> quantity_on_hand d (i_variant_id item) (i_location_id item) = i_system_qty item
               \<longrightarrow> quantity_on_hand d' (i_variant_id item) (i_location_id item) = c))"
  using assms
proof (cases rule: commitOpname_effect)
  case (1 opname)
  let ?items = "items_with_variance d opnameId"
  have nz: "variance_num (?items ! k) \<noteq> 0" if "k < length ?items" for k
    using that by (intro variance_nonzero[of _ d opnameId]) simp
  have rows: "\<forall>k < length ?items.
            m_variant_id (booked d d' ! k) = i_variant_id (?items ! k)
            \<and> m_location_id (booked d d' ! k) = i_location_id (?items ! k)
            \<and> m_qty (booked d d' ! k) = \<bar>variance_num (?items ! k)\<bar>
            \<and> variance_num (?items ! k) \<noteq> 0
            \<and> (0 < variance_num (?items ! k) \<longrightarrow>
                 m_movement_type (booked d d' ! k) = ''IN''
                 \<and> m_reason_code (booked d d' ! k) = ''ADJUSTMENT_IN'')
            \<and> (variance_num (?items ! k) < 0 \<longrightarrow>
                 m_movement_type (booked d d' ! k) = ''OUT''
                 \<and> m_reason_code (booked d d' ! k) = ''ADJUSTMENT_OUT'')
            \<and> m_ref_table (booked d d' ! k) = Some ''stock_opname''
            \<and> m_ref_id (booked d d' ! k) = Some opnameId"
    using nz by (simp add: 1(4) adjustment_rows_nth movement_row_fields adjustment_payload_fields)
  have match: "quantity_on_hand d' (i_variant_id item) (i_location_id item) = c"
    if dist: "distinct (map (\<lambda>i. (i_variant_id i, i_location_id i))
                      (filter (\<lambda>i. i_opname_id i = opnameId) (stock_opname_items d)))"
      and item: "item \<in> set (stock_opname_items d)" "i_opname_id item = opnameId"
        "i_counted_qty item = Some c"
        "quantity_on_hand d (i_variant_id item) (i_location_id item) = i_system_qty item"
    for item c
    using variance_at_unique[OF dist item(1,2)] item(3,4)
    by (auto simp: 1(5) variance_num_def i_variance_qty_def)
  have "mset ?items
         = mset (filter (\<lambda>i. i_opname_id i = opnameId \<and> i_counted_qty i \<noteq> None
                             \<and> i_variance_qty i \<noteq> Some 0) (stock_opname_items d))"
    by (simp add: items_with_variance_def)
  moreover have "length (booked d d') = length ?items"
    by (simp add: 1(4))
  ultimately show ?thesis
    using rows 1(5) match by blast
qed

theorem commit_books_variances_witness:
  "\<not> isl (commitOpname strict_env 1 (Some ''ayu'') example_session)
   \<and> map i_system_qty (stock_opname_items example_session) = [10, 5, 0]
   \<and> map i_counted_qty (stock_opname_items example_session) = [Some 7, Some 5, Some 3]
   \<and> length (booked example_session
               (db_after (commitOpname strict_env 1 (Some ''ayu'') example_session))) = 2
   \<and> map (\<lambda>m. (m_movement_type m, m_reason_code m, m_qty m, m_location_id m))
         (booked example_session
            (db_after (commitOpname strict_env 1 (Some ''ayu'') example_session)))
     = [(''IN'', ''ADJUSTMENT_IN'', 3, 3), (''OUT'', ''ADJUSTMENT_OUT'', 3, 1)]
   \<and> map (quantity_on_hand
            (db_after (commitOpname strict_env 1 (Some ''ayu'') example_session)) 1) [1, 2, 3]
     = [7, 5, 3]"
proof -
  let ?r = "commitOpname strict_env 1 (Some ''ayu'') example_session"
  let ?d' = "snd (projr ?r)"
  have ok: "\<not> isl ?r" by code_simp
  then have r: "?r = Inr (fst (projr ?r), ?d')" by (rule not_isl_collapse)
  then have after: "db_after ?r = ?d'" by (metis db_after_Inr)
  have sys: "map i_system_qty (stock_opname_items example_session) = [10, 5, 0]"
    and cnt: "map i_counted_qty (stock_opname_items example_session) = [Some 7, Some 5, Some 3]"
    by (simp_all add: example_session_def)
  have items: "length (items_with_variance example_session 1) = 2" by code_simp
  have bal: "map (quantity_on_hand example_session 1) [1, 2, 3] = [10, 5, 0]" by code_simp
  have rows: "map (\<lambda>m. (m_movement_type m, m_reason_code m, m_qty m, m_location_id m))
                (booked example_session (db_after ?r))
              = [(''IN'', ''ADJUSTMENT_IN'', 3, 3), (''OUT'', ''ADJUSTMENT_OUT'', 3, 1)]"
    by code_simp
  have dist: "distinct (map (\<lambda>i. (i_variant_id i, i_location_id i))
                (filter (\<lambda>i. i_opname_id i = 1) (stock_opname_items example_session)))"
    by (simp add: example_session_def)
  note inst = commit_books_variances[OF r]
  have len: "length (booked example_session ?d') = 2"
    using inst items by simp
  have m: "\<forall>item \<in> set (stock_opname_items example_session). \<forall>c.
               i_opname_id item = 1 \<and> i_counted_qty item = Some c
               \<and> quantity_on_hand example_session (i_variant_id item) (i_location_id item)
                 = i_system_qty item
               \<longrightarrow> quantity_on_hand ?d' (i_variant_id item) (i_location_id item) = c"
    using inst dist by blast
  have "map (quantity_on_hand ?d' 1) [1, 2, 3] = [7, 5, 3]"
    using m bal by (simp add: example_session_def)
  with ok sys cnt len rows after show ?thesis by simp
qed

text \<open>
  The claim as it is written fails where stock moved between the count and the commit:
  two pieces were sold at location 1 after 5 were counted against a snapshot of 6; the
  commit succeeds, books the snapshot's variance of -1, and leaves 3 on hand, not 5.
\<close>

theorem commit_drift_counterexample:
  "\<not> isl (commitOpname strict_env 1 (Some ''ayu'') sold_during_count)
   \<and> i_opname_id (stock_opname_items sold_during_count ! 0) = 1
   \<and> i_variant_id (stock_opname_items sold_during_count ! 0) = 1
   \<and> i_location_id (stock_opname_items sold_during_count ! 0) = 1
   \<and> i_system_qty (stock_opname_items sold_during_count ! 0) = 6
   \<and> i_counted_qty (stock_opname_items sold_during_count ! 0) = Some 5
   \<and> quantity_on_hand sold_during_count 1 1 = 4
   \<and> quantity_on_hand
        (db_after (commitOpname strict_env 1 (Some ''ayu'') sold_during_count)) 1 1 = 3"
proof -
  have "\<not> isl (commitOpname strict_env 1 (Some ''ayu'') sold_during_count)" by code_simp
  moreover have "i_opname_id (stock_opname_items sold_during_count ! 0) = 1" by code_simp
  moreover have "i_variant_id (stock_opname_items sold_during_count ! 0) = 1" by code_simp
  moreover have "i_location_id (stock_opname_items sold_during_count ! 0) = 1" by code_simp
  moreover have "i_system_qty (stock_opname_items sold_during_count ! 0) = 6" by code_simp
  moreover have "i_counted_qty (stock_opname_items sold_during_count ! 0) = Some 5" by code_simp
  moreover have "quantity_on_hand sold_during_count 1 1 = 4" by code_simp
  moreover have "quantity_on_hand
        (db_after (commitOpname strict_env 1 (Some ''ayu'') sold_during_count)) 1 1 = 3"
    by code_simp
  ultimately show ?thesis by simp
qed

subsection \<open>Commit on a session that is not ACTIVE\<close>

lemma commitOpname_not_active:
  assumes "\<forall>r \<in> set (stock_opname d). o_id r = opnameId \<longrightarrow> o_status r \<noteq> ACTIVE"
  shows "commitOpname e opnameId cb d = Inl (OpnameNotFoundOrNotActive, d)"
proof -
  have "filter (\<lambda>r. o_id r = opnameId \<and> o_status r = ACTIVE) (stock_opname d) = []"
    unfolding filter_empty_conv using assms by blast
  then show ?thesis by (simp add: commitOpname_def)
qed

lemma commitOpname_completes:
  assumes "commitOpname e opnameId cb d = Inr (res, d')"
  shows "\<forall>r \<in> set (stock_opname d'). o_id r = opnameId \<longrightarrow> o_status r = COMPLETED"
  using assms
proof (cases rule: commitOpname_effect)
  case (1 opname)
  show ?thesis
  proof (intro ballI impI)
    fix r
    assume mem: "r \<in> set (stock_opname d')" and id: "o_id r = opnameId"
    from mem obtain x where
      r: "r = (if o_id x = opnameId
               then x\<lparr>o_status := COMPLETED, o_completed_at := Some (now e)\<rparr> else x)"
      unfolding 1(7) set_map by blast
    from id show "o_status r = COMPLETED"
      unfolding r by (cases "o_id x = opnameId") simp_all
  qed
qed

text \<open>
  C6. Commit on a session that is not ACTIVE (no such session, or a session in another
  state) fails with the not-active error, which is an invalid-state error, and returns
  the database as it was: no movement, no balance and no session changes. A successful
  commit leaves the session COMPLETED, so committing it again, whoever asks and whenever,
  fails in that way.
\<close>

theorem commit_requires_active:
  "((\<forall>r \<in> set (stock_opname d). o_id r = opnameId \<longrightarrow> o_status r \<noteq> ACTIVE) \<longrightarrow>
      commitOpname e opnameId cb d = Inl (OpnameNotFoundOrNotActive, d)
      \<and> kind_of OpnameNotFoundOrNotActive = InvalidState)
   \<and> (\<forall>res d'. commitOpname e opnameId cb d = Inr (res, d') \<longrightarrow>
        (\<forall>r \<in> set (stock_opname d'). o_id r = opnameId \<longrightarrow> o_status r = COMPLETED)
        \<and> (\<forall>e' cb'. commitOpname e' opnameId cb' d' = Inl (OpnameNotFoundOrNotActive, d')))"
proof (intro conjI impI allI)
  assume "\<forall>r \<in> set (stock_opname d). o_id r = opnameId \<longrightarrow> o_status r \<noteq> ACTIVE"
  then show "commitOpname e opnameId cb d = Inl (OpnameNotFoundOrNotActive, d)"
    by (rule commitOpname_not_active)
next
  fix res d' e' cb'
  assume ok: "commitOpname e opnameId cb d = Inr (res, d')"
  show completed: "\<forall>r \<in> set (stock_opname d'). o_id r = opnameId \<longrightarrow> o_status r = COMPLETED"
    by (rule commitOpname_completes[OF ok])
  then have "\<forall>r \<in> set (stock_opname d'). o_id r = opnameId \<longrightarrow> o_status r \<noteq> ACTIVE"
    by auto
  then show "commitOpname e' opnameId cb' d' = Inl (OpnameNotFoundOrNotActive, d')"
    by (rule commitOpname_not_active)
qed simp

theorem commit_requires_active_witness:
  "map o_status (stock_opname closed_shop) = [COMPLETED]
   \<and> commitOpname lenient_env 1 (Some ''lili'') closed_shop
     = Inl (OpnameNotFoundOrNotActive, closed_shop)
   \<and> map o_status (stock_opname counted_shop) = [ACTIVE]
   \<and> \<not> isl (commitOpname strict_env 1 (Some ''ayu'') counted_shop)
   \<and> commitOpname lenient_env 1 (Some ''lili'')
        (db_after (commitOpname strict_env 1 (Some ''ayu'') counted_shop))
     = Inl (OpnameNotFoundOrNotActive,
            db_after (commitOpname strict_env 1 (Some ''ayu'') counted_shop))"
proof -
  let ?r = "commitOpname strict_env 1 (Some ''ayu'') counted_shop"
  have st: "map o_status (stock_opname closed_shop) = [COMPLETED]"
    "map o_status (stock_opname counted_shop) = [ACTIVE]"
    by code_simp+
  have na: "\<forall>r \<in> set (stock_opname closed_shop). o_id r = 1 \<longrightarrow> o_status r \<noteq> ACTIVE"
    using st(1) by (auto simp: map_eq_Cons_conv)
  have ok: "\<not> isl ?r" by code_simp
  then have r: "?r = Inr (fst (projr ?r), snd (projr ?r))" by (rule not_isl_collapse)
  then have after: "db_after ?r = snd (projr ?r)" by (metis db_after_Inr)
  have "commitOpname lenient_env 1 (Some ''lili'') closed_shop
        = Inl (OpnameNotFoundOrNotActive, closed_shop)"
    using commit_requires_active[of closed_shop 1 lenient_env "Some ''lili''"] na by blast
  moreover have "commitOpname lenient_env 1 (Some ''lili'') (snd (projr ?r))
        = Inl (OpnameNotFoundOrNotActive, snd (projr ?r))"
    using commit_requires_active[of counted_shop 1 strict_env "Some ''ayu''"] r by blast
  ultimately show ?thesis using st ok after by simp
qed

subsection \<open>The order of the adjustments of a commit\<close>

lemma book_adjustments_append:
  "book_adjustments e opname opnameId cb (xs @ ys) d =
     (case book_adjustments e opname opnameId cb xs d of
        Inl x \<Rightarrow> Inl x
      | Inr (a1, d1) \<Rightarrow>
          (case book_adjustments e opname opnameId cb ys d1 of
             Inl x \<Rightarrow> Inl x
           | Inr (a2, d2) \<Rightarrow> Inr (a1 @ a2, d2)))"
  by (induction xs arbitrary: d) (auto split: sum.splits prod.splits)

lemma descending_split:
  fixes key :: "'a \<Rightarrow> int"
  assumes "sorted (map (\<lambda>x. - key x) xs)"
  shows "filter (\<lambda>x. 0 < key x) xs @ filter (\<lambda>x. \<not> 0 < key x) xs = xs"
  using assms
proof (induction xs)
  case Nil
  then show ?case by simp
next
  case (Cons a xs)
  show ?case
  proof (cases "0 < key a")
    case True
    with Cons show ?thesis by simp
  next
    case False
    with Cons.prems have "\<forall>x \<in> set xs. \<not> 0 < key x" by auto
    then have "filter (\<lambda>x. 0 < key x) xs = []" "filter (\<lambda>x. \<not> 0 < key x) xs = xs"
      by (simp_all add: filter_empty_conv filter_id_conv)
    with False show ?thesis by simp
  qed
qed

lemma items_with_variance_descending:
  "sorted (map (\<lambda>i. - variance_num i) (items_with_variance d opnameId))"
  unfolding items_with_variance_def by (rule sorted_sort_key)

lemma booked_snoc:
  assumes "stock_movements d1 = stock_movements d @ xs" "stock_movements d2 = stock_movements d1 @ ys"
  shows "booked d d1 = xs" "booked d1 d2 = ys" "booked d d2 = xs @ ys"
  using assms by (simp_all add: booked_def)

text \<open>
  C10. The ledger rows of a successful commit come in descending order of variance (the
  signed quantity of a row is the variance it books), so no OUT adjustment comes before an
  IN adjustment. The loop is the loop over the items of positive variance followed, from
  the database that one leaves, by the loop over the others: when the first OUT
  adjustment is checked against the stock on hand, every pair already holds its former
  balance plus the positive variances of the commit.
\<close>

theorem adjustments_in_descending_variance_order:
  assumes "commitOpname e opnameId cb d = Inr (res, d')"
  shows "(\<forall>j k. j \<le> k \<and> k < length (booked d d') \<longrightarrow>
            signed_qty (booked d d' ! k) \<le> signed_qty (booked d d' ! j))
       \<and> (\<forall>j k. j < length (booked d d') \<and> k < length (booked d d')
              \<and> m_reason_code (booked d d' ! j) = ''ADJUSTMENT_OUT''
              \<and> m_reason_code (booked d d' ! k) = ''ADJUSTMENT_IN'' \<longrightarrow> k < j)
       \<and> (\<exists>opname ins d_in outs d_out.
            book_adjustments e opname opnameId cb
              (filter (\<lambda>i. 0 < variance_num i) (items_with_variance d opnameId)) d
            = Inr (ins, d_in)
            \<and> book_adjustments e opname opnameId cb
                (filter (\<lambda>i. \<not> 0 < variance_num i) (items_with_variance d opnameId)) d_in
              = Inr (outs, d_out)
            \<and> cr_adjustments res = ins @ outs
            \<and> booked d d' = booked d d_in @ booked d_in d_out
            \<and> (\<forall>m \<in> set (booked d d_in). m_reason_code m = ''ADJUSTMENT_IN'')
            \<and> (\<forall>m \<in> set (booked d_in d_out). m_reason_code m = ''ADJUSTMENT_OUT'')
            \<and> (\<forall>v l. quantity_on_hand d_in v l
                     = quantity_on_hand d v l
                       + variance_at v l
                           (filter (\<lambda>i. 0 < variance_num i) (items_with_variance d opnameId))))"
proof (intro conjI)
  let ?items = "items_with_variance d opnameId"
  from assms obtain opname where
    rows: "booked d d' = adjustment_rows e opname opnameId cb (next_movement_id d) ?items"
    by (rule commitOpname_effect)
  have len: "length (booked d d') = length ?items" by (simp add: rows)
  have sq: "signed_qty (booked d d' ! k) = variance_num (?items ! k)" if "k < length ?items" for k
    using that by (simp add: rows adjustment_rows_nth signed_qty_adjustment)
  have rc: "m_reason_code (booked d d' ! k)
            = (if 0 < variance_num (?items ! k) then ''ADJUSTMENT_IN'' else ''ADJUSTMENT_OUT'')"
    if "k < length ?items" for k
    using that by (simp add: rows adjustment_rows_nth movement_row_fields adjustment_payload_fields)
  have desc: "variance_num (?items ! k) \<le> variance_num (?items ! j)"
    if "j \<le> k" "k < length ?items" for j k
    using sorted_nth_mono[OF items_with_variance_descending[of d opnameId], of j k] that
    by simp
  show "\<forall>j k. j \<le> k \<and> k < length (booked d d') \<longrightarrow>
            signed_qty (booked d d' ! k) \<le> signed_qty (booked d d' ! j)"
    using desc by (auto simp: len sq)
  show "\<forall>j k. j < length (booked d d') \<and> k < length (booked d d')
              \<and> m_reason_code (booked d d' ! j) = ''ADJUSTMENT_OUT''
              \<and> m_reason_code (booked d d' ! k) = ''ADJUSTMENT_IN'' \<longrightarrow> k < j"
  proof (intro allI impI, elim conjE)
    fix j k
    assume jk: "j < length (booked d d')" "k < length (booked d d')"
      and out: "m_reason_code (booked d d' ! j) = ''ADJUSTMENT_OUT''"
      and inn: "m_reason_code (booked d d' ! k) = ''ADJUSTMENT_IN''"
    from jk out inn have "\<not> 0 < variance_num (?items ! j)" "0 < variance_num (?items ! k)"
      by (auto simp: len rc split: if_splits)
    then have "\<not> j \<le> k" using desc[of j k] jk(2) by (auto simp: len)
    then show "k < j" by simp
  qed
  show "\<exists>opname ins d_in outs d_out.
            book_adjustments e opname opnameId cb
              (filter (\<lambda>i. 0 < variance_num i) ?items) d
            = Inr (ins, d_in)
            \<and> book_adjustments e opname opnameId cb
                (filter (\<lambda>i. \<not> 0 < variance_num i) ?items) d_in
              = Inr (outs, d_out)
            \<and> cr_adjustments res = ins @ outs
            \<and> booked d d' = booked d d_in @ booked d_in d_out
            \<and> (\<forall>m \<in> set (booked d d_in). m_reason_code m = ''ADJUSTMENT_IN'')
            \<and> (\<forall>m \<in> set (booked d_in d_out). m_reason_code m = ''ADJUSTMENT_OUT'')
            \<and> (\<forall>v l. quantity_on_hand d_in v l
                     = quantity_on_hand d v l
                       + variance_at v l (filter (\<lambda>i. 0 < variance_num i) ?items))"
    using assms
  proof (cases rule: commitOpname_InrE)
    case (1 opname rest d1)
    let ?pos = "filter (\<lambda>i. 0 < variance_num i) ?items"
    let ?neg = "filter (\<lambda>i. \<not> 0 < variance_num i) ?items"
    have split: "?pos @ ?neg = ?items"
      by (rule descending_split[OF items_with_variance_descending])
    from 1(2) have "book_adjustments e opname opnameId cb (?pos @ ?neg) d
                    = Inr (cr_adjustments res, d1)"
      by (simp only: split)
    then obtain ins d_in outs where
      a: "book_adjustments e opname opnameId cb ?pos d = Inr (ins, d_in)"
      and b: "book_adjustments e opname opnameId cb ?neg d_in = Inr (outs, d1)"
      and c: "cr_adjustments res = ins @ outs"
      by (auto simp: book_adjustments_append split: sum.splits prod.splits)
    note ea = book_adjustments_effect[OF a] and eb = book_adjustments_effect[OF b]
    have m1: "stock_movements d_in
              = stock_movements d @ adjustment_rows e opname opnameId cb (next_movement_id d) ?pos"
      and m2: "stock_movements d1
              = stock_movements d_in
                @ adjustment_rows e opname opnameId cb (next_movement_id d_in) ?neg"
      using ea eb by simp_all
    have d': "stock_movements d' = stock_movements d1" by (simp add: 1(3))
    have bk: "booked d d' = booked d d_in @ booked d_in d1"
      using booked_snoc[OF m1 m2] by (simp add: booked_def d')
    have reasons: "\<forall>m \<in> set (adjustment_rows e opname opnameId cb i xs).
                     m_reason_code m = (if pos then ''ADJUSTMENT_IN'' else ''ADJUSTMENT_OUT'')"
      if "\<forall>x \<in> set xs. (0 < variance_num x) = pos" for i xs pos
      using that
      by (induction xs arbitrary: i) (auto simp: movement_row_fields adjustment_payload_fields)
    have r1: "\<forall>m \<in> set (booked d d_in). m_reason_code m = ''ADJUSTMENT_IN''"
      using reasons[of ?pos True] booked_snoc(1)[OF m1 m2] by simp
    have r2: "\<forall>m \<in> set (booked d_in d1). m_reason_code m = ''ADJUSTMENT_OUT''"
      using reasons[of ?neg False] booked_snoc(2)[OF m1 m2] by simp
    show ?thesis
      using a b c bk r1 r2 ea by blast
  qed
qed

theorem adjustments_in_descending_variance_order_witness:
  "\<not> isl (commitOpname strict_env 1 (Some ''ayu'') counted_shop)
   \<and> map signed_qty
         (booked counted_shop (db_after (commitOpname strict_env 1 (Some ''ayu'') counted_shop)))
     = [3, - 1]
   \<and> map m_reason_code
         (booked counted_shop (db_after (commitOpname strict_env 1 (Some ''ayu'') counted_shop)))
     = [''ADJUSTMENT_IN'', ''ADJUSTMENT_OUT'']
   \<and> signed_qty (booked counted_shop
                   (db_after (commitOpname strict_env 1 (Some ''ayu'') counted_shop)) ! 1)
     \<le> signed_qty (booked counted_shop
                     (db_after (commitOpname strict_env 1 (Some ''ayu'') counted_shop)) ! 0)"
proof -
  let ?r = "commitOpname strict_env 1 (Some ''ayu'') counted_shop"
  let ?b = "booked counted_shop (snd (projr ?r))"
  have ok: "\<not> isl ?r" by code_simp
  then have r: "?r = Inr (fst (projr ?r), snd (projr ?r))" by (rule not_isl_collapse)
  then have after: "db_after ?r = snd (projr ?r)" by (metis db_after_Inr)
  have sq: "map signed_qty (booked counted_shop (db_after ?r)) = [3, - 1]" by code_simp
  have rc: "map m_reason_code (booked counted_shop (db_after ?r))
            = [''ADJUSTMENT_IN'', ''ADJUSTMENT_OUT'']" by code_simp
  from sq have len: "length ?b = 2"
    unfolding after by (metis length_map list.size(3,4) One_nat_def Suc_1 add.left_neutral plus_1_eq_Suc)
  have "signed_qty (?b ! 1) \<le> signed_qty (?b ! 0)"
    using adjustments_in_descending_variance_order[OF r] len by simp
  with ok sq rc after show ?thesis by simp
qed

subsection \<open>The stock card\<close>





lemma with_running_balance_Nil_iff [simp]: "with_running_balance b js = [] \<longleftrightarrow> js = []"
  by (cases js) (simp_all add: Let_def)











subsection \<open>Resolving a variant by name, twice\<close>

text \<open>
  For a product name that the alias table leaves alone, the lookup and the creation use
  the same name, and the second resolution finds the variant that the first one created.
\<close>

lemma variants_by_names_iff:
  "vid \<in> set (variants_by_names d pn cn sn) \<longleftrightarrow>
     (\<exists>r \<in> set (product_color_sizes d). \<exists>pc \<in> set (product_colors d).
        \<exists>p \<in> set (products d). \<exists>c \<in> set (colors d). \<exists>s \<in> set (sizes d).
          pcs_id r = vid \<and> pcs_product_color_id r = pc_id pc \<and> pc_product_id pc = p_id p
          \<and> pc_color_id pc = c_id c \<and> pcs_size_id r = s_id s
          \<and> p_name p = pn \<and> c_name c = cn \<and> s_name s = sn)"
proof -
  have one: "\<And>v c a. v \<in> set (if c then [a] else []) \<longleftrightarrow> c \<and> v = (a::int)"
    by auto
  have sel: "\<And>v P f xs. v \<in> set (concat (map (\<lambda>x. if P x then f x else []) xs))
      \<longleftrightarrow> (\<exists>x \<in> set xs. P x \<and> (v::int) \<in> set (f x))"
    by auto
  have all: "\<And>v f xs. v \<in> set (concat (map f xs)) \<longleftrightarrow> (\<exists>x \<in> set xs. (v::int) \<in> set (f x))"
    by auto
  show ?thesis
    unfolding variants_by_names_def
    apply (subst all)
    apply (simp only: sel one)
    apply blast
    done
qed

lemma filter_ConsD: "filter P xs = x # ys \<Longrightarrow> x \<in> set xs \<and> P x"
  by (metis filter_eq_ConsD in_set_conv_decomp)

lemma get_or_create_product_row:
  assumes "get_or_create_product n d = (i, d1)"
  shows "\<exists>p \<in> set (products d1). p_id p = i \<and> p_name p = n"
    and "\<forall>p \<in> set (products d1). p \<in> set (products d) \<or> p_id p = next_product_id d"
    and "colors d1 = colors d" "sizes d1 = sizes d" "product_colors d1 = product_colors d"
      "product_color_sizes d1 = product_color_sizes d"
    and "next_color_id d1 = next_color_id d" "next_size_id d1 = next_size_id d"
      "next_product_color_id d1 = next_product_color_id d"
  using assms unfolding get_or_create_product_def
  by (auto split: list.splits dest: filter_ConsD)

lemma get_or_create_color_row:
  assumes "get_or_create_color n d = (i, d1)"
  shows "\<exists>c \<in> set (colors d1). c_id c = i \<and> c_name c = n"
    and "\<forall>c \<in> set (colors d1). c \<in> set (colors d) \<or> c_id c = next_color_id d"
    and "products d1 = products d" "sizes d1 = sizes d" "product_colors d1 = product_colors d"
      "product_color_sizes d1 = product_color_sizes d"
    and "next_product_id d1 = next_product_id d" "next_size_id d1 = next_size_id d"
      "next_product_color_id d1 = next_product_color_id d"
  using assms unfolding get_or_create_color_def
  by (auto split: list.splits dest: filter_ConsD)

lemma get_or_create_size_row:
  assumes "get_or_create_size n d = Inr (i, d1)"
  shows "\<exists>s \<in> set (sizes d1). s_id s = i \<and> s_name s = n"
    and "\<forall>s \<in> set (sizes d1). s \<in> set (sizes d) \<or> s_id s = next_size_id d"
    and "products d1 = products d" "colors d1 = colors d" "product_colors d1 = product_colors d"
      "product_color_sizes d1 = product_color_sizes d"
    and "next_product_id d1 = next_product_id d" "next_color_id d1 = next_color_id d"
      "next_product_color_id d1 = next_product_color_id d"
  using assms unfolding get_or_create_size_def
  by (auto split: list.splits option.splits dest: filter_ConsD)

lemma get_or_create_product_color_row:
  assumes "get_or_create_product_color a b d = (i, d1)"
  shows "\<exists>pc \<in> set (product_colors d1). pc_id pc = i \<and> pc_product_id pc = a \<and> pc_color_id pc = b"
    and "\<forall>pc \<in> set (product_colors d1).
           pc \<in> set (product_colors d) \<or> pc_id pc = next_product_color_id d"
    and "products d1 = products d" "colors d1 = colors d" "sizes d1 = sizes d"
      "product_color_sizes d1 = product_color_sizes d"
  using assms unfolding get_or_create_product_color_def
  by (auto split: list.splits dest: filter_ConsD)

lemma insert_product_color_size_row:
  assumes "insert_product_color_size a b d = Inr (i, d1)"
  shows "product_color_sizes d1 = product_color_sizes d @
           [\<lparr>pcs_id = i, pcs_product_color_id = a, pcs_size_id = b\<rparr>]"
    and "products d1 = products d" "colors d1 = colors d" "sizes d1 = sizes d"
      "product_colors d1 = product_colors d"
  using assms unfolding insert_product_color_size_def
  by (auto split: if_splits)

lemma init_balances_catalog:
  assumes "init_balances e vid locs d = Inr d'"
  shows "products d' = products d \<and> colors d' = colors d \<and> sizes d' = sizes d
         \<and> product_colors d' = product_colors d
         \<and> product_color_sizes d' = product_color_sizes d"
  using assms
proof (induction locs arbitrary: d)
  case Nil
  then show ?case by simp
next
  case (Cons loc locs)
  from Cons.prems obtain d1 where
    one: "insert_stock_balance
            \<lparr>b_variant_id = vid, b_location_id = l_id loc, b_qty_on_hand = 0,
             b_avg_cost = None, b_updated_at = now e\<rparr> d = Inr d1"
    and rest: "init_balances e vid locs d1 = Inr d'"
    by (auto split: sum.splits)
  from one have "d1 = d\<lparr>stock_balances := stock_balances d @
            [\<lparr>b_variant_id = vid, b_location_id = l_id loc, b_qty_on_hand = 0,
             b_avg_cost = None, b_updated_at = now e\<rparr>]\<rparr>"
    by (auto simp: insert_stock_balance_def split: if_splits)
  with Cons.IH[OF rest] show ?case by simp
qed


lemma singleton_head:
  assumes "set xs = {v}"
  obtains ys where "xs = v # ys"
  using assms by (cases xs) auto

lemma created_variant_found:
  assumes create: "createVariantFromNames e pn cn sn d = Inr (r, d')"
    and plain: "mappedProductName pn = Some pn"
    and none: "variants_by_names d pn cn sn = []"
    and fresh: "counters_unreferenced d"
  shows "set (variants_by_names d' pn cn sn) = {r_id r}"
  using create
proof (cases rule: createVariantFromNames_steps)
  case (1 mapped pid d1 cid d2 sid d3 pcid d4 vid d5)
  from 1(1) plain have mapped: "mapped = pn" by simp
  note P = get_or_create_product_row[OF 1(2)[unfolded mapped]]
  note C = get_or_create_color_row[OF 1(3)]
  note S = get_or_create_size_row[OF 1(4)]
  note PC = get_or_create_product_color_row[OF 1(5)]
  note R = insert_product_color_size_row[OF 1(6)]
  note B = init_balances_catalog[OF 1(7)]
  have products: "products d' = products d1"
    using B R(2) PC(3) S(3) C(3) by simp
  have colors: "colors d' = colors d2"
    using B R(3) PC(4) S(4) by simp
  have sizes: "sizes d' = sizes d3"
    using B R(4) PC(5) by simp
  have pcs: "product_colors d' = product_colors d4"
    using B R(5) by simp
  have rows: "product_color_sizes d' = product_color_sizes d @
      [\<lparr>pcs_id = vid, pcs_product_color_id = pcid, pcs_size_id = sid\<rparr>]"
    using B R(1) PC(6) S(6) C(6) P(6) by simp
  have old_pc: "product_colors d3 = product_colors d"
    using S(5) C(5) P(5) by simp
  have next_pc: "next_product_color_id d3 = next_product_color_id d"
    using S(9) C(9) P(9) by simp
  have next_s: "next_size_id d2 = next_size_id d"
    using C(8) P(8) by simp
  have next_c: "next_color_id d1 = next_color_id d"
    using P(7) by simp
  have old_s: "sizes d2 = sizes d" using C(4) P(4) by simp
  have old_c: "colors d1 = colors d" using P(3) by simp
  from fresh have f1: "\<And>pc. pc \<in> set (product_colors d) \<Longrightarrow> pc_product_id pc \<noteq> next_product_id d"
    and f2: "\<And>pc. pc \<in> set (product_colors d) \<Longrightarrow> pc_color_id pc \<noteq> next_color_id d"
    and f3: "\<And>x. x \<in> set (product_color_sizes d) \<Longrightarrow> pcs_size_id x \<noteq> next_size_id d"
    and f4: "\<And>x. x \<in> set (product_color_sizes d)
               \<Longrightarrow> pcs_product_color_id x \<noteq> next_product_color_id d"
    unfolding counters_unreferenced_def set_map image_iff by auto
  have "vid \<in> set (variants_by_names d' pn cn sn)"
  proof -
    from P(1) obtain p where p: "p \<in> set (products d')" "p_id p = pid" "p_name p = pn"
      unfolding products by blast
    from C(1) obtain c where c: "c \<in> set (colors d')" "c_id c = cid" "c_name c = cn"
      unfolding colors by blast
    from S(1) obtain s where s: "s \<in> set (sizes d')" "s_id s = sid" "s_name s = sn"
      unfolding sizes by blast
    from PC(1) obtain pc where pc: "pc \<in> set (product_colors d')" "pc_id pc = pcid"
        "pc_product_id pc = pid" "pc_color_id pc = cid"
      unfolding pcs by blast
    have "\<lparr>pcs_id = vid, pcs_product_color_id = pcid, pcs_size_id = sid\<rparr>
            \<in> set (product_color_sizes d')"
      unfolding rows by simp
    with p c s pc show ?thesis
      unfolding variants_by_names_iff
      by (intro bexI[of _ "\<lparr>pcs_id = vid, pcs_product_color_id = pcid, pcs_size_id = sid\<rparr>"]
          bexI[of _ pc] bexI[of _ p] bexI[of _ c] bexI[of _ s]) simp_all
  qed
  moreover have "x = vid" if "x \<in> set (variants_by_names d' pn cn sn)" for x
  proof -
    from that obtain row pc p c s where
      row: "row \<in> set (product_color_sizes d')" and pc: "pc \<in> set (product_colors d')"
      and p: "p \<in> set (products d')" and c: "c \<in> set (colors d')" and s: "s \<in> set (sizes d')"
      and j: "pcs_id row = x" "pcs_product_color_id row = pc_id pc" "pc_product_id pc = p_id p"
        "pc_color_id pc = c_id c" "pcs_size_id row = s_id s"
        "p_name p = pn" "c_name c = cn" "s_name s = sn"
      unfolding variants_by_names_iff by blast
    show ?thesis
    proof (cases "row \<in> set (product_color_sizes d)")
      case False
      with row show ?thesis using j(1) unfolding rows by auto
    next
      case True
      from pc PC(2) have "pc \<in> set (product_colors d)"
        unfolding pcs old_pc next_pc using f4[OF True] j(2) by auto
      note pc_old = this
      from p P(2) have p_old: "p \<in> set (products d)"
        unfolding products using f1[OF pc_old] j(3) by auto
      from c C(2) have c_old: "c \<in> set (colors d)"
        unfolding colors old_c next_c using f2[OF pc_old] j(4) by auto
      from s S(2) have s_old: "s \<in> set (sizes d)"
        unfolding sizes old_s next_s using f3[OF True] j(5) by auto
      from True pc_old p_old c_old s_old j have "x \<in> set (variants_by_names d pn cn sn)"
        unfolding variants_by_names_iff by blast
      with none show ?thesis by simp
    qed
  qed
  ultimately have "set (variants_by_names d' pn cn sn) = {vid}" by blast
  moreover have "r_id r = vid" using 1(8) by simp
  ultimately show ?thesis by (simp only:)
qed

lemma resolve_plain_name_twice:
  assumes first: "resolveVariantId e pn cn sn d = Inr (r, d')"
    and plain: "mappedProductName pn = Some pn"
    and fresh: "counters_unreferenced d"
  shows "resolveVariantId e' pn cn sn d' = Inr (\<lparr>r_id = r_id r, r_created = False\<rparr>, d')"
proof (cases "variants_by_names d pn cn sn")
  case (Cons v vs)
  with first have "r = \<lparr>r_id = v, r_created = False\<rparr>" "d' = d"
    by (simp_all add: resolveVariantId_def)
  with Cons show ?thesis by (simp add: resolveVariantId_def)
next
  case Nil
  with first have "createVariantFromNames e pn cn sn d = Inr (r, d')"
    by (simp add: resolveVariantId_def)
  from created_variant_found[OF this plain Nil fresh]
  obtain ys where "variants_by_names d' pn cn sn = r_id r # ys"
    by (rule singleton_head)
  then show ?thesis by (simp add: resolveVariantId_def)
qed

lemma resolve_plain_name_twice_example:
  "resolveVariantId later_env ''T-shirt Katun PDK'' ''Putih'' ''L''
     (db_after (resolveVariantId strict_env ''T-shirt Katun PDK'' ''Putih'' ''L'' shop))
   = Inr (\<lparr>r_id = 2, r_created = False\<rparr>,
          db_after (resolveVariantId strict_env ''T-shirt Katun PDK'' ''Putih'' ''L'' shop))"
  by code_simp

text \<open>
  C8 at a name the alias table rewrites. The shop knows the product T-shirt Katun PDK, the
  alias KAOS CARDED of the table stands for it, and the colour Putih is new. The first
  resolution of (KAOS CARDED, Putih, L) finds nothing under the name as given, creates
  variant 2 under the mapped name and reports \<open>created\<close>. The second resolution looks the
  name up as given again, finds nothing again, sets out to create the variant once
  more and ends in the duplicate-key error of \<^verbatim>\<open>unique_product_color_size\<close>: it neither
  returns variant 2 nor reports \<open>created = false\<close>.
\<close>

theorem resolve_alias_twice_fails:
  "mappedProductName ''KAOS CARDED'' = Some ''T-shirt Katun PDK''
   \<and> variants_by_names shop ''KAOS CARDED'' ''Putih'' ''L'' = []
   \<and> \<not> isl (resolveVariantId strict_env ''KAOS CARDED'' ''Putih'' ''L'' shop)
   \<and> fst (projr (resolveVariantId strict_env ''KAOS CARDED'' ''Putih'' ''L'' shop))
     = \<lparr>r_id = 2, r_created = True\<rparr>
   \<and> resolveVariantId later_env ''KAOS CARDED'' ''Putih'' ''L''
        (db_after (resolveVariantId strict_env ''KAOS CARDED'' ''Putih'' ''L'' shop))
     = Inl (ER_DUP_ENTRY,
            db_after (resolveVariantId strict_env ''KAOS CARDED'' ''Putih'' ''L'' shop))"
proof -
  have "mappedProductName ''KAOS CARDED'' = Some ''T-shirt Katun PDK''" by code_simp
  moreover have "variants_by_names shop ''KAOS CARDED'' ''Putih'' ''L'' = []" by code_simp
  moreover have "\<not> isl (resolveVariantId strict_env ''KAOS CARDED'' ''Putih'' ''L'' shop)"
    by code_simp
  moreover have "fst (projr (resolveVariantId strict_env ''KAOS CARDED'' ''Putih'' ''L'' shop))
     = \<lparr>r_id = 2, r_created = True\<rparr>"
    by code_simp
  moreover have "resolveVariantId later_env ''KAOS CARDED'' ''Putih'' ''L''
        (db_after (resolveVariantId strict_env ''KAOS CARDED'' ''Putih'' ''L'' shop))
     = Inl (ER_DUP_ENTRY,
            db_after (resolveVariantId strict_env ''KAOS CARDED'' ''Putih'' ''L'' shop))"
    by code_simp
  ultimately show ?thesis by simp
qed

end
